theory Spec2Isabelle
  imports Main
begin

section \<open>JavaScript strings\<close>

text \<open>
  The text of a message is kept as a \<^typ>\<open>string\<close>, one \<^typ>\<open>char\<close> for each code unit:
  these are the texts whose code units are below 256. The functions of this section
  compute on them what the JavaScript built-ins compute.
\<close>

definition code :: "char \<Rightarrow> nat" where
  "code c = of_char c"

text \<open>\<^verbatim>\<open>String.prototype.trim\<close> removes white space and line terminators at both
  ends: tab, line feed, vertical tab, form feed, carriage return, space and the
  no-break space are the ones below 256.\<close>

definition isWhiteSpace :: "char \<Rightarrow> bool" where
  "isWhiteSpace c = (code c \<in> {9, 10, 11, 12, 13, 32, 160})"

definition trim :: "string \<Rightarrow> string" where
  "trim s = rev (dropWhile isWhiteSpace (rev (dropWhile isWhiteSpace s)))"

fun startsWith :: "string \<Rightarrow> string \<Rightarrow> bool" where
  "startsWith s [] = True"
| "startsWith [] (p # ps) = False"
| "startsWith (c # cs) (p # ps) = (c = p \<and> startsWith cs ps)"

text \<open>\<^verbatim>\<open>s.includes(t)\<close>: \<open>t\<close> occurs in \<open>s\<close> as a contiguous substring.\<close>

fun includesStr :: "string \<Rightarrow> string \<Rightarrow> bool" where
  "includesStr [] t = (t = [])"
| "includesStr (c # cs) t = (startsWith (c # cs) t \<or> includesStr cs t)"

section \<open>UTF-16 strings\<close>

text \<open>
  The match evaluator is applied to the text a provider returns, which can hold any
  code unit. Here a JavaScript string is the list of its UTF-16 code units, each a
  number from 0 to \<open>0xFFFF\<close>. \<open>utf16\<close> takes a \<^typ>\<open>string\<close> of code units below 256 to
  that form.
\<close>

type_synonym codeUnit = int

type_synonym jsString = "codeUnit list"

definition utf16 :: "string \<Rightarrow> jsString" where
  "utf16 s = map of_char s"

text \<open>\<^verbatim>\<open>String.prototype.trim\<close> removes white space and line terminators at both
  ends: tab, line feed, vertical tab, form feed, carriage return, the space
  separators of Unicode (\<open>0x20\<close>, \<open>0xA0\<close>, \<open>0x1680\<close>, \<open>0x2000\<close> to \<open>0x200A\<close>, \<open>0x202F\<close>,
  \<open>0x205F\<close>, \<open>0x3000\<close>), the line and paragraph separators and the byte order mark.\<close>

definition isWhiteSpaceUnit :: "codeUnit \<Rightarrow> bool" where
  "isWhiteSpaceUnit c =
     (c \<in> {0x9, 0xA, 0xB, 0xC, 0xD, 0x20, 0xA0, 0x1680, 0x2028, 0x2029, 0x202F, 0x205F,
           0x3000, 0xFEFF} \<or>
      (0x2000 \<le> c \<and> c \<le> 0x200A))"

definition trimUnits :: "jsString \<Rightarrow> jsString" where
  "trimUnits s = rev (dropWhile isWhiteSpaceUnit (rev (dropWhile isWhiteSpaceUnit s)))"

text \<open>
  \<^verbatim>\<open>String.prototype.toLowerCase\<close> replaces each character by its lower case in
  Unicode. The mapping is written out for the code units below 256 (A to Z, and the
  capitals \<open>0xC0\<close> to \<open>0xDE\<close> without the multiplication sign \<open>0xD7\<close>, move up by
  \<open>0x20\<close>), for the capital I with dot above \<open>0x130\<close>, whose lower case is the two
  code units \<open>0x69\<close> (i) and \<open>0x307\<close> (combining dot above), and for \<open>0x307\<close>, which
  has no case. For any other code unit the result is \<open>None\<close>: its mapping is not
  part of this development, and nothing is stated about a string that holds it.
\<close>

definition lowerUnit :: "codeUnit \<Rightarrow> jsString option" where
  "lowerUnit c =
     (if (0x41 \<le> c \<and> c \<le> 0x5A) \<or> (0xC0 \<le> c \<and> c \<le> 0xDE \<and> c \<noteq> 0xD7)
      then Some [c + 0x20]
      else if 0 \<le> c \<and> c < 0x100 then Some [c]
      else if c = 0x130 then Some [0x69, 0x307]
      else if c = 0x307 then Some [c]
      else None)"

fun toLowerCase :: "jsString \<Rightarrow> jsString option" where
  "toLowerCase [] = Some []"
| "toLowerCase (c # cs) =
     (case lowerUnit c of
        None \<Rightarrow> None
      | Some l \<Rightarrow> map_option (append l) (toLowerCase cs))"

text \<open>
  The \<^verbatim>\<open>Canonicalize\<close> operation of a regular expression with the \<^verbatim>\<open>i\<close> flag and
  without the \<^verbatim>\<open>u\<close> flag maps a code unit to its upper case when that is a single
  code unit. Below 256: a to z and \<open>0xE0\<close> to \<open>0xFE\<close> without the division sign
  \<open>0xF7\<close> move down by \<open>0x20\<close>; the micro sign \<open>0xB5\<close> goes to the Greek capital
  \<open>0x39C\<close> and the y with diaeresis \<open>0xFF\<close> to \<open>0x178\<close>; the sharp s \<open>0xDF\<close> has
  a two-letter upper case and stays. \<open>0x130\<close> is its own upper case and \<open>0x307\<close>
  has none. \<open>None\<close> for any other code unit, as for \<open>lowerUnit\<close>.
\<close>

definition canonicalize :: "codeUnit \<Rightarrow> codeUnit option" where
  "canonicalize c =
     (if (0x61 \<le> c \<and> c \<le> 0x7A) \<or> (0xE0 \<le> c \<and> c \<le> 0xFE \<and> c \<noteq> 0xF7)
      then Some (c - 0x20)
      else if c = 0xB5 then Some 0x39C
      else if c = 0xFF then Some 0x178
      else if 0 \<le> c \<and> c < 0x100 then Some c
      else if c = 0x130 \<or> c = 0x307 then Some c
      else None)"

text \<open>The word characters of \<^verbatim>\<open>\b\<close> without the \<^verbatim>\<open>u\<close> flag: the letters A to Z and
  a to z, the digits and the underscore.\<close>

definition isWordUnit :: "codeUnit \<Rightarrow> bool" where
  "isWordUnit c =
     ((0x30 \<le> c \<and> c \<le> 0x39) \<or> (0x41 \<le> c \<and> c \<le> 0x5A) \<or>
      (0x61 \<le> c \<and> c \<le> 0x7A) \<or> c = 0x5F)"

section \<open>The regular expression of the match evaluator\<close>

text \<open>
  \<^verbatim>\<open>checkExactMatch\<close> builds a pattern from text and hands it to \<^verbatim>\<open>new RegExp\<close>.
  The pattern language is modelled as far as that text can reach: the assertion
  \<^verbatim>\<open>\b\<close>, a backslash before a syntax character, and characters that stand for
  themselves. Any other pattern is outside the fragment (\<open>None\<close>).
\<close>

definition backslash :: codeUnit where
  "backslash = 0x5C"

text \<open>The character class of the \<^verbatim>\<open>replace\<close> call, which is also the set of syntax
  characters of a JavaScript pattern.\<close>

definition syntaxChars :: "codeUnit list" where
  "syntaxChars = utf16 ''.*+?^${}()|[]'' @ [backslash]"

definition escapeRegExp :: "jsString \<Rightarrow> jsString" where
  "escapeRegExp s = concat (map (\<lambda>c. if c \<in> set syntaxChars then [backslash, c] else [c]) s)"

datatype atom = WordBoundary | Literal codeUnit

text \<open>\<open>0x62\<close> is the letter b.\<close>

fun parsePattern :: "jsString \<Rightarrow> atom list option" where
  "parsePattern [] = Some []"
| "parsePattern [c] =
     (if c \<in> set syntaxChars then None else Some [Literal c])"
| "parsePattern (c # d # rest) =
     (if c = backslash then
        (if d = 0x62 then map_option (Cons WordBoundary) (parsePattern rest)
         else if d \<in> set syntaxChars then map_option (Cons (Literal d)) (parsePattern rest)
         else None)
      else if c \<in> set syntaxChars then None
      else map_option (Cons (Literal c)) (parsePattern (d # rest)))"

text \<open>\<^verbatim>\<open>\b\<close> holds at position \<open>i\<close> of \<open>s\<close> when exactly one of the code units before
  and after the position is a word character; outside the string there is none.\<close>

definition wordCharAt :: "jsString \<Rightarrow> int \<Rightarrow> bool" where
  "wordCharAt s i = (0 \<le> i \<and> i < int (length s) \<and> isWordUnit (s ! nat i))"

definition isBoundary :: "jsString \<Rightarrow> nat \<Rightarrow> bool" where
  "isBoundary s i = (wordCharAt s (int i - 1) \<noteq> wordCharAt s (int i))"

text \<open>Matching a sequence of atoms at position \<open>i\<close>, with the \<^verbatim>\<open>i\<close> flag: a literal
  matches a code unit with the same canonical form.\<close>

fun matchAt :: "atom list \<Rightarrow> jsString \<Rightarrow> nat \<Rightarrow> bool" where
  "matchAt [] s i = True"
| "matchAt (WordBoundary # as) s i = (isBoundary s i \<and> matchAt as s i)"
| "matchAt (Literal c # as) s i =
     (i < length s \<and> canonicalize (s ! i) = canonicalize c \<and> matchAt as s (Suc i))"

fun canonical :: "atom \<Rightarrow> bool" where
  "canonical WordBoundary = True"
| "canonical (Literal c) = (canonicalize c \<noteq> None)"

text \<open>\<^verbatim>\<open>regex.test(s)\<close> of a pattern without the \<^verbatim>\<open>g\<close> flag tries every start
  position from 0 to the length of \<open>s\<close>. The result is \<open>None\<close> when the pattern or
  the string holds a code unit whose canonical form is not modelled.\<close>

definition regexTest :: "atom list \<Rightarrow> jsString \<Rightarrow> bool option" where
  "regexTest as s =
     (if list_all canonical as \<and> list_all (\<lambda>c. canonicalize c \<noteq> None) s
      then Some (list_ex (matchAt as s) [0..<Suc (length s)])
      else None)"

section \<open>Match evaluator\<close>

text \<open>
  \<^verbatim>\<open>NeedleTestManager.checkExactMatch(response, exactMatch)\<close>. The result is the
  word-boundary test alone; the substring test and the case-sensitive test of the
  source are only logged. \<open>None\<close> stands for an input outside the modelled code
  units or a pattern outside the modelled fragment.
\<close>

definition checkExactMatch :: "jsString \<Rightarrow> jsString \<Rightarrow> bool option" where
  "checkExactMatch response exactMatch =
     (if response = [] \<or> exactMatch = [] then Some False
      else
        let cleanResponse = trimUnits response;
            cleanExactMatch = trimUnits exactMatch
        in if cleanResponse = [] \<or> cleanExactMatch = [] then Some False
           else
             (case toLowerCase cleanResponse of
                None \<Rightarrow> None
              | Some responseLower \<Rightarrow>
                  (case toLowerCase cleanExactMatch of
                     None \<Rightarrow> None
                   | Some exactMatchLower \<Rightarrow>
                       (case parsePattern ([backslash, 0x62] @ escapeRegExp exactMatchLower @
                                           [backslash, 0x62]) of
                          None \<Rightarrow> None
                        | Some wordBoundaryRegex \<Rightarrow> regexTest wordBoundaryRegex responseLower))))"

text \<open>A whole-word match without regard to case: some occurrence of the target in
  the response, code unit by code unit with equal canonical forms, with a word
  boundary on each side.\<close>

definition wholeWordMatch :: "jsString \<Rightarrow> jsString \<Rightarrow> bool" where
  "wholeWordMatch target response =
     (\<exists>i. i + length target \<le> length response \<and>
          isBoundary response i \<and> isBoundary response (i + length target) \<and>
          map canonicalize (take (length target) (drop i response)) = map canonicalize target)"

text \<open>The evaluator in the words of the specification: both inputs trimmed, false
  when either is empty, otherwise the trimmed target, escaped and put between two
  word-boundary anchors, tested against the trimmed response without regard to
  case. Unlike the source it lowers neither string first.\<close>

definition matches :: "jsString \<Rightarrow> jsString \<Rightarrow> bool option" where
  "matches responseText exactMatchTarget =
     (let r = trimUnits responseText; t = trimUnits exactMatchTarget
      in if r = [] \<or> t = [] then Some False
         else (case parsePattern ([backslash, 0x62] @ escapeRegExp t @ [backslash, 0x62]) of
                 None \<Rightarrow> None
               | Some re \<Rightarrow> regexTest re r))"

text \<open>The strings of code units below 256, and what \<open>toLowerCase\<close> does to a code unit
  of such a string.\<close>

definition below256 :: "jsString \<Rightarrow> bool" where
  "below256 s = list_all (\<lambda>c. 0 \<le> c \<and> c < 0x100) s"

definition lowerBelow256 :: "codeUnit \<Rightarrow> codeUnit" where
  "lowerBelow256 c =
     (if (0x41 \<le> c \<and> c \<le> 0x5A) \<or> (0xC0 \<le> c \<and> c \<le> 0xDE \<and> c \<noteq> 0xD7) then c + 0x20 else c)"

section \<open>Provider adapter: the structured-responses envelope\<close>

text \<open>
  The value \<^verbatim>\<open>responses.create\<close> resolves to is a JavaScript value. Numbers are
  integers here; an object is a list of bindings, looked up from the front.
\<close>

datatype json =
    JUndefined
  | JNull
  | JBool bool
  | JNum int
  | JStr string
  | JArr "json list"
  | JObj "(string \<times> json) list"

text \<open>What \<^verbatim>\<open>&&\<close>, \<^verbatim>\<open>||\<close>, \<^verbatim>\<open>!\<close> and \<^verbatim>\<open>if\<close> see of a value.\<close>

fun truthy :: "json \<Rightarrow> bool" where
  "truthy JUndefined = False"
| "truthy JNull = False"
| "truthy (JBool b) = b"
| "truthy (JNum n) = (n \<noteq> 0)"
| "truthy (JStr s) = (s \<noteq> [])"
| "truthy (JArr xs) = True"
| "truthy (JObj kvs) = True"

text \<open>\<^verbatim>\<open>v.name\<close> for the names the adapter reads (\<^verbatim>\<open>output_text\<close>, \<^verbatim>\<open>text\<close>,
  \<^verbatim>\<open>content\<close>, \<^verbatim>\<open>output\<close>, \<^verbatim>\<open>choices\<close>, \<^verbatim>\<open>message\<close>): an object gives the bound
  value, every other value that can be read gives \<^verbatim>\<open>undefined\<close>. The source reads a
  property only behind a truthiness test of the value it reads from, so it never
  reads from \<^verbatim>\<open>null\<close> or \<^verbatim>\<open>undefined\<close>.\<close>

fun getProp :: "json \<Rightarrow> string \<Rightarrow> json" where
  "getProp (JObj kvs) k = (case map_of kvs k of None \<Rightarrow> JUndefined | Some v \<Rightarrow> v)"
| "getProp v k = JUndefined"

text \<open>\<^verbatim>\<open>v[0]\<close>: the first element of an array, the first code unit of a string, the
  binding of \<^verbatim>\<open>"0"\<close> in an object.\<close>

fun getIndex0 :: "json \<Rightarrow> json" where
  "getIndex0 (JArr xs) = (case xs of [] \<Rightarrow> JUndefined | x # _ \<Rightarrow> x)"
| "getIndex0 (JStr s) = (case s of [] \<Rightarrow> JUndefined | c # _ \<Rightarrow> JStr [c])"
| "getIndex0 (JObj kvs) = (case map_of kvs ''0'' of None \<Rightarrow> JUndefined | Some v \<Rightarrow> v)"
| "getIndex0 v = JUndefined"

text \<open>The response shapes of \<^verbatim>\<open>generateOpenAIResponse\<close>, each the condition of one
  branch of its chain and the value that branch returns.\<close>

definition shapeOutputText :: "json \<Rightarrow> json option" where
  "shapeOutputText response =
     (if truthy response \<and> truthy (getProp response ''output_text'')
      then Some (getProp response ''output_text'') else None)"

definition shapeTextContent :: "json \<Rightarrow> json option" where
  "shapeTextContent response =
     (if truthy response \<and> truthy (getProp response ''text'') \<and>
         truthy (getProp (getProp response ''text'') ''content'')
      then Some (getProp (getProp response ''text'') ''content'') else None)"

definition shapeOutputArray :: "json \<Rightarrow> json option" where
  "shapeOutputArray response =
     (if truthy response \<and> truthy (getProp response ''output'') \<and>
         truthy (getIndex0 (getProp response ''output'')) \<and>
         truthy (getProp (getIndex0 (getProp response ''output'')) ''content'') \<and>
         truthy (getIndex0 (getProp (getIndex0 (getProp response ''output'')) ''content'')) \<and>
         truthy (getProp (getIndex0 (getProp (getIndex0 (getProp response ''output'')) ''content''))
                   ''text'')
      then Some (getProp (getIndex0 (getProp (getIndex0 (getProp response ''output'')) ''content''))
                   ''text'')
      else None)"

definition hasChoice :: "json \<Rightarrow> bool" where
  "hasChoice response =
     (truthy response \<and> truthy (getProp response ''choices'') \<and>
      truthy (getIndex0 (getProp response ''choices'')))"

definition shapeChoiceText :: "json \<Rightarrow> json option" where
  "shapeChoiceText response =
     (if hasChoice response \<and> truthy (getProp (getIndex0 (getProp response ''choices'')) ''text'')
      then Some (getProp (getIndex0 (getProp response ''choices'')) ''text'') else None)"

definition shapeChoiceMessage :: "json \<Rightarrow> json option" where
  "shapeChoiceMessage response =
     (if hasChoice response \<and>
         truthy (getProp (getIndex0 (getProp response ''choices'')) ''message'') \<and>
         truthy (getProp (getProp (getIndex0 (getProp response ''choices'')) ''message'') ''content'')
      then Some (getProp (getProp (getIndex0 (getProp response ''choices'')) ''message'') ''content'')
      else None)"

definition shapeOutputDotText :: "json \<Rightarrow> json option" where
  "shapeOutputDotText response =
     (if truthy response \<and> truthy (getProp response ''output'') \<and>
         truthy (getProp (getProp response ''output'') ''text'')
      then Some (getProp (getProp response ''output'') ''text'') else None)"

definition shapeContent :: "json \<Rightarrow> json option" where
  "shapeContent response =
     (if truthy response \<and> truthy (getProp response ''content'')
      then Some (getProp response ''content'') else None)"

definition knownShapes :: "(json \<Rightarrow> json option) list" where
  "knownShapes = [shapeOutputText, shapeTextContent, shapeOutputArray, shapeChoiceText,
     shapeChoiceMessage, shapeOutputDotText, shapeContent]"

text \<open>A thrown \<^verbatim>\<open>Error\<close> is its message.\<close>

type_synonym error = string

definition unexpectedResponseFormat :: error where
  "unexpectedResponseFormat = ''Unexpected response format from OpenAI Responses API''"

text \<open>\<^verbatim>\<open>Object.keys(response)\<close> in the logging before the throw fails on \<^verbatim>\<open>null\<close> and
  \<^verbatim>\<open>undefined\<close>; that error is the one thrown then.\<close>

definition objectKeysTypeError :: error where
  "objectKeysTypeError = ''Cannot convert undefined or null to object''"

definition noShape :: "json \<Rightarrow> error + json" where
  "noShape response =
     (if response = JNull \<or> response = JUndefined then Inl objectKeysTypeError
      else Inl unexpectedResponseFormat)"

text \<open>The extraction of \<^verbatim>\<open>generateOpenAIResponse\<close> for \<^verbatim>\<open>apiType === 'responses'\<close>,
  branch by branch. The branch for \<^verbatim>\<open>choices[0]\<close> has its own inner chain; when
  that finds nothing, control leaves the outer chain.\<close>

definition extractResponseText :: "json \<Rightarrow> error + json" where
  "extractResponseText response =
     (case shapeOutputText response of Some t \<Rightarrow> Inr t | None \<Rightarrow>
      (case shapeTextContent response of Some t \<Rightarrow> Inr t | None \<Rightarrow>
      (case shapeOutputArray response of Some t \<Rightarrow> Inr t | None \<Rightarrow>
      (if hasChoice response then
         (case shapeChoiceText response of Some t \<Rightarrow> Inr t | None \<Rightarrow>
         (case shapeChoiceMessage response of Some t \<Rightarrow> Inr t | None \<Rightarrow>
          noShape response))
       else
      (case shapeOutputDotText response of Some t \<Rightarrow> Inr t | None \<Rightarrow>
      (case shapeContent response of Some t \<Rightarrow> Inr t | None \<Rightarrow>
       noShape response))))))"

text \<open>What a call to a provider comes back with.\<close>

datatype 'a settled = Rejected error | Resolved 'a

definition generateOpenAIResponses :: "json settled \<Rightarrow> error + json" where
  "generateOpenAIResponses call =
     (case call of Rejected e \<Rightarrow> Inl e | Resolved response \<Rightarrow> extractResponseText response)"

section \<open>Messages\<close>

text \<open>A message as a provider takes it, and a message of a transcript, which adds the
  sender (\<^verbatim>\<open>'user'\<close> or a model id). The roles of the transcript are \<^verbatim>\<open>'user'\<close>
  and \<^verbatim>\<open>'ai'\<close>. The id and the timestamp of a message play no part.\<close>

record apiMessage =
  role :: string
  content :: string

record message = apiMessage +
  provider :: string

definition placeholderText :: string where
  "placeholderText = ''(Previous turn provided no text output)''"

definition blankLine :: string where
  "blankLine = [CHR 0x0A, CHR 0x0A]"

text \<open>\<^verbatim>\<open>messages.find(msg => msg.provider === 'user')?.content || 'General discussion'\<close>\<close>

definition initialPromptOf :: "message list \<Rightarrow> string" where
  "initialPromptOf messages =
     (case find (\<lambda>msg. provider msg = ''user'') messages of
        None \<Rightarrow> ''General discussion''
      | Some msg \<Rightarrow> if content msg = [] then ''General discussion'' else content msg)"

section \<open>Provider adapter: Gemini\<close>

definition geminiHeader :: "string \<Rightarrow> string" where
  "geminiHeader initialPrompt =
     ''You are having a natural conversation with other AIs about: '' @
     [CHR 0x22] @ initialPrompt @
     [CHR 0x22, CHR 0x0A, CHR 0x0A] @
     ''Respond naturally by: building on previous points, sharing your '' @
     ''own perspective, agreeing or respectfully disagreeing, making '' @
     ''observations, or offering new angles. Mix up your response style '' @
     ''- sometimes make statements, sometimes share insights, sometimes '' @
     ''pose questions, but don'' @
     [CHR 0x27] @
     ''t end every response with a question. Keep the conversation '' @
     ''flowing naturally like friends discussing a topic. Be authentic '' @
     ''and avoid assistant-like phrases.'' @
     [CHR 0x0A, CHR 0x0A] @
     ''Conversation so far:'' @
     [CHR 0x0A, CHR 0x0A]"

definition geminiTrailer :: string where
  "geminiTrailer =
     ''Now respond naturally - maybe build on what was said, share '' @
     ''your perspective, make an observation, or take the discussion '' @
     ''in a new direction. Don'' @
     [CHR 0x27] @
     ''t feel obligated to ask a question:''"

definition speaker :: "message \<Rightarrow> string" where
  "speaker msg = (if provider msg = ''user'' then ''Human'' else ''AI ('' @ provider msg @ '')'')"

definition validMessages :: "message list \<Rightarrow> message list" where
  "validMessages messages =
     filter (\<lambda>msg. content msg \<noteq> [] \<and> length (trim (content msg)) > 0) messages"

text \<open>The \<^verbatim>\<open>forEach\<close> that appends one block per message to \<^verbatim>\<open>conversationContext\<close>.\<close>

definition appendTurn :: "string \<Rightarrow> message \<Rightarrow> string" where
  "appendTurn conversationContext msg =
     conversationContext @ speaker msg @ '': '' @ content msg @ blankLine"

definition conversationContext :: "message list \<Rightarrow> string" where
  "conversationContext valid =
     foldl appendTurn (geminiHeader (initialPromptOf valid)) valid @ geminiTrailer"

text \<open>\<^verbatim>\<open>generateGeminiResponse\<close>: the prompts sent to the provider, in order, and
  the result. \<open>call\<close> is the provider: what \<^verbatim>\<open>generateContent\<close> followed by
  \<^verbatim>\<open>response.text()\<close> comes back with for a prompt.\<close>

definition generateGeminiResponse ::
    "(string \<Rightarrow> string settled) \<Rightarrow> message list \<Rightarrow> string list \<times> (error + string)" where
  "generateGeminiResponse call messages =
     (let valid = validMessages messages
      in if length valid = 0 then ([], Inl ''No valid messages to process'')
         else
           let prompt = conversationContext valid
           in (case call prompt of
                 Rejected e \<Rightarrow> ([prompt], Inl e)
               | Resolved responseText \<Rightarrow>
                   if responseText = [] \<or> length (trim responseText) = 0
                   then ([prompt], Inl ''Empty response from Gemini'')
                   else ([prompt], Inr responseText)))"

section \<open>Provider adapter: Claude\<close>

definition claudeSystemMessage :: "string \<Rightarrow> string" where
  "claudeSystemMessage initialPrompt =
     ''You are having a natural conversation with other AIs about: '' @
     [CHR 0x22] @ initialPrompt @
     [CHR 0x22, CHR 0x0A, CHR 0x0A] @
     ''Act like a curious, thoughtful participant who builds on what '' @
     ''others say. Share your own perspectives, challenge ideas respectfully, '' @
     ''ask follow-up questions that dig deeper, and keep the conversation '' @
     ''flowing. Avoid saying '' @
     [CHR 0x22] @
     ''I'' @
     [CHR 0x27] @
     ''m here to help'' @
     [CHR 0x22] @
     '' or '' @
     [CHR 0x22] @
     ''feel free to ask'' @
     [CHR 0x22] @
     '' - instead, directly engage with the ideas presented. Be conversational, '' @
     ''not an assistant.''"

text \<open>\<^verbatim>\<open>msg.role === 'ai' ? 'assistant' : msg.role\<close>\<close>

definition claudeRole :: "string \<Rightarrow> string" where
  "claudeRole r = (if r = ''ai'' then ''assistant'' else r)"

definition filteredMessages :: "message list \<Rightarrow> message list" where
  "filteredMessages messages =
     filter (\<lambda>msg. content msg \<noteq> [] \<and> \<not> includesStr (content msg) placeholderText) messages"

text \<open>One round of the loop over \<^verbatim>\<open>filteredMessages\<close>: the last processed message
  grows, or a new one is pushed. The loop runs only after a first message has been
  pushed, so there is a last one.\<close>

definition mergeStep :: "apiMessage list \<Rightarrow> message \<Rightarrow> apiMessage list" where
  "mergeStep processedMessages currentMessage =
     (let lastProcessedMessage = last processedMessages;
          currentRole = claudeRole (role currentMessage)
      in if currentRole = ''assistant'' \<and> role lastProcessedMessage = ''assistant'' then
           butlast processedMessages @
             [lastProcessedMessage\<lparr>content :=
                content lastProcessedMessage @ blankLine @ content currentMessage\<rparr>]
         else if currentRole = ''user'' \<and> role lastProcessedMessage = ''user'' then
           butlast processedMessages @
             [lastProcessedMessage\<lparr>content :=
                content lastProcessedMessage @ blankLine @ content currentMessage\<rparr>]
         else
           processedMessages @ [\<lparr>role = currentRole, content = content currentMessage\<rparr>])"

definition processMessages :: "message list \<Rightarrow> apiMessage list" where
  "processMessages messages =
     (if length messages > 0 then
        (case filteredMessages messages of
           [] \<Rightarrow> []
         | first # rest \<Rightarrow>
             foldl mergeStep [\<lparr>role = claudeRole (role first), content = content first\<rparr>] rest)
      else [])"

definition addDefaultUser :: "string \<Rightarrow> apiMessage list \<Rightarrow> apiMessage list" where
  "addDefaultUser initialPrompt processedMessages =
     (if length processedMessages = 0
      then [\<lparr>role = ''user'', content = (if initialPrompt = [] then ''Hello'' else initialPrompt)\<rparr>]
      else processedMessages)"

definition addContinuation :: "apiMessage list \<Rightarrow> apiMessage list" where
  "addContinuation processedMessages =
     (if length processedMessages > 0 \<and> role (last processedMessages) = ''assistant''
      then processedMessages @ [\<lparr>role = ''user'', content = ''Please continue the conversation.''\<rparr>]
      else processedMessages)"

text \<open>The \<^verbatim>\<open>messages\<close> and \<^verbatim>\<open>system\<close> parameters of the request
  \<^verbatim>\<open>generateClaudeResponse\<close> sends.\<close>

definition formattedMessages :: "message list \<Rightarrow> apiMessage list" where
  "formattedMessages messages =
     addContinuation (addDefaultUser (initialPromptOf messages) (processMessages messages))"

definition systemMessage :: "message list \<Rightarrow> string" where
  "systemMessage messages = claudeSystemMessage (initialPromptOf messages)"

text \<open>The shaping in the words of the specification: a run of messages with one role
  becomes one message, its content the contents of the run joined by a blank line.\<close>

fun joinBlankLine :: "string list \<Rightarrow> string" where
  "joinBlankLine [] = []"
| "joinBlankLine [s] = s"
| "joinBlankLine (s # t # ts) = s @ blankLine @ joinBlankLine (t # ts)"

definition mergedRun :: "apiMessage list \<Rightarrow> apiMessage" where
  "mergedRun run = \<lparr>role = role (hd run), content = joinBlankLine (map content run)\<rparr>"

definition sameRoleRun :: "apiMessage list \<Rightarrow> bool" where
  "sameRoleRun run = (run \<noteq> [] \<and> list_all (\<lambda>m. role m = role (hd run)) run)"

fun alternating :: "apiMessage list \<Rightarrow> bool" where
  "alternating [] = True"
| "alternating [m] = True"
| "alternating (m # n # ms) = (role m \<noteq> role n \<and> alternating (n # ms))"

definition toApi :: "message \<Rightarrow> apiMessage" where
  "toApi msg = \<lparr>role = claudeRole (role msg), content = content msg\<rparr>"

text \<open>The invariant of the loop of \<^verbatim>\<open>generateClaudeResponse\<close>: the processed messages
  are the merged runs of the messages seen so far.\<close>

definition mergedFrom :: "apiMessage list \<Rightarrow> apiMessage list \<Rightarrow> bool" where
  "mergedFrom processed seen =
     (processed \<noteq> [] \<and> alternating processed \<and>
      (\<exists>runs. concat runs = seen \<and> list_all sameRoleRun runs \<and> processed = map mergedRun runs))"

section \<open>Credentials\<close>

text \<open>
  \<^verbatim>\<open>ENV_API_KEYS\<close> and \<^verbatim>\<open>userApiKeys\<close>. A user's key is kept here as the text that
  \<^verbatim>\<open>decryptApiKey\<close> gives back for the stored entry.
\<close>

record keyStore =
  envApiKeys :: "string \<rightharpoonup> string"
  userApiKeys :: "string \<rightharpoonup> (string \<rightharpoonup> string)"

definition getApiKey :: "keyStore \<Rightarrow> string \<Rightarrow> string \<Rightarrow> string option" where
  "getApiKey ks providerName user =
     (case envApiKeys ks providerName of
        Some k \<Rightarrow> if k \<noteq> [] then Some k else
          (case userApiKeys ks user of
             None \<Rightarrow> None
           | Some userKeys \<Rightarrow> userKeys providerName)
      | None \<Rightarrow>
          (case userApiKeys ks user of
             None \<Rightarrow> None
           | Some userKeys \<Rightarrow> userKeys providerName))"

text \<open>A key that is there and is not the empty text: what \<^verbatim>\<open>getApiKey\<close> returns is
  truthy.\<close>

definition hasCredential :: "keyStore \<Rightarrow> string \<Rightarrow> string \<Rightarrow> bool" where
  "hasCredential ks providerName user =
     (case getApiKey ks providerName user of None \<Rightarrow> False | Some k \<Rightarrow> k \<noteq> [])"


text \<open>The table \<^verbatim>\<open>modelMapping\<close> inside \<^verbatim>\<open>continueConversationChain\<close>.\<close>

definition chainModelMapping :: "(string \<times> string) list" where
  "chainModelMapping =
     [(''gpt-4'', ''openai''), (''gpt-4-turbo'', ''openai''), (''gpt-4o-mini'', ''openai''),
      (''gpt-3.5-turbo'', ''openai''),
      (''gemini-2.5-pro'', ''google''), (''gemini-2.0-flash'', ''google''),
      (''gemini-2.0-flash-lite'', ''google''),
      (''gemini-1.5-pro'', ''google''), (''gemini-1.5-flash'', ''google''),
      (''gemini-1.0-pro'', ''google''),
      (''gemini-2.5-flash-preview-05-20'', ''google''),
      (''gemini-2.5-pro-preview-05-06'', ''google''),
      (''claude-3-opus'', ''anthropic''), (''claude-3-sonnet'', ''anthropic''),
      (''claude-3-haiku'', ''anthropic''), (''claude-instant'', ''anthropic'')]"

text \<open>These tables are object literals, and \<^verbatim>\<open>table[name]\<close> also finds what the object
  inherits from \<^verbatim>\<open>Object.prototype\<close>: a function, or for \<^verbatim>\<open>__proto__\<close> the prototype
  itself. Such a value is truthy; where the code goes on to use it as a property name
  or joins it into a text, it is converted to the text given here.\<close>

definition inheritedProperties :: "(string \<times> string) list" where
  "inheritedProperties =
     [(''constructor'', ''function Object() { [native code] }''),
      (''__defineGetter__'', ''function __defineGetter__() { [native code] }''),
      (''__defineSetter__'', ''function __defineSetter__() { [native code] }''),
      (''hasOwnProperty'', ''function hasOwnProperty() { [native code] }''),
      (''__lookupGetter__'', ''function __lookupGetter__() { [native code] }''),
      (''__lookupSetter__'', ''function __lookupSetter__() { [native code] }''),
      (''isPrototypeOf'', ''function isPrototypeOf() { [native code] }''),
      (''propertyIsEnumerable'', ''function propertyIsEnumerable() { [native code] }''),
      (''toString'', ''function toString() { [native code] }''),
      (''valueOf'', ''function valueOf() { [native code] }''),
      (''__proto__'', ''[object Object]''),
      (''toLocaleString'', ''function toLocaleString() { [native code] }'')]"

definition lookupProperty :: "(string \<times> string) list \<Rightarrow> string \<Rightarrow> string option" where
  "lookupProperty table name =
     (case map_of table name of
        Some v \<Rightarrow> Some v
      | None \<Rightarrow> map_of inheritedProperties name)"

text \<open>\<^verbatim>\<open>provider && aiManager.getApiKey(provider, conversation.userId)\<close> for a
  participant: the table of the chain gives a value for the model and the key found
  for that value is not empty.\<close>

definition hasApiKey :: "keyStore \<Rightarrow> string \<Rightarrow> string \<Rightarrow> bool" where
  "hasApiKey ks user testModelId =
     (case lookupProperty chainModelMapping testModelId of
        None \<Rightarrow> False
      | Some providerName \<Rightarrow> hasCredential ks providerName user)"

section \<open>Conversations\<close>

record conversation =
  userId :: string
  participants :: "string list"
  messages :: "message list"
  initialGoal :: "string option"
  currentTurn :: nat
  isActive :: bool
  emptyResponseCount :: nat

text \<open>The result of a needle test for one model, without its times.\<close>

record modelRef =
  modelId :: string

record needleResult = modelRef +
  response :: string
  foundNeedle :: bool

text \<open>What the server emits on the socket.\<close>

datatype event =
    AiThinking string
  | NeedleTestResult needleResult
  | NeedleTestError string error
  | AllTestsComplete
  | NewMessage message
  | ConversationStarted
  | ConversationEnded string
  | ErrorEvent string "string option"

definition createConversation :: "string \<Rightarrow> string list \<Rightarrow> conversation" where
  "createConversation user models =
     \<lparr>userId = user, participants = models, messages = [], initialGoal = None,
      currentTurn = 0, isActive = False, emptyResponseCount = 0\<rparr>"

definition newMessage :: "string \<Rightarrow> string \<Rightarrow> message" where
  "newMessage sender text =
     \<lparr>role = (if sender = ''user'' then ''user'' else ''ai''), content = text, provider = sender\<rparr>"

text \<open>\<^verbatim>\<open>ConversationManager.addMessage\<close>: the goal is taken from a message of the user
  while the goal is still \<^verbatim>\<open>null\<close> or empty.\<close>

definition addMessage :: "string \<Rightarrow> string \<Rightarrow> conversation \<Rightarrow> conversation" where
  "addMessage sender text c =
     (let c1 = (if sender = ''user'' \<and> (initialGoal c = None \<or> initialGoal c = Some [])
                then c\<lparr>initialGoal := Some text\<rparr> else c)
      in c1\<lparr>messages := messages c1 @ [newMessage sender text]\<rparr>)"

text \<open>\<^verbatim>\<open>conversation.messages.slice(-limit)\<close>: the last \<^verbatim>\<open>limit\<close> messages, and with
  the limit 0 all of them, \<^verbatim>\<open>-0\<close> being the start of the list.\<close>

definition getConversationHistory :: "conversation \<Rightarrow> nat \<Rightarrow> message list" where
  "getConversationHistory c limit =
     (if limit = 0 then messages c
      else drop (length (messages c) - limit) (messages c))"

section \<open>Conversation chain\<close>

text \<open>
  The state of one conversation chain: the conversation, the events emitted so far,
  and the callback that \<^verbatim>\<open>setTimeout\<close> holds, if any. The callback set after a
  placeholder or a failure (1500 ms) looks at \<^verbatim>\<open>isActive\<close>; the one set after a
  message of a model (2000 ms) looks at \<^verbatim>\<open>isActive\<close> and at the number of messages.
\<close>

datatype timer = RecheckActive | RecheckActiveAndLimit

record chain =
  conv :: conversation
  emitted :: "event list"
  timer :: "timer option"

text \<open>What \<^verbatim>\<open>await aiManager.generateResponse(...)\<close> comes back with: a text
  (\<open>None\<close> for \<^verbatim>\<open>null\<close> or \<^verbatim>\<open>undefined\<close>) or a thrown error. The provider decides
  it, from the model and the history it is given.\<close>

datatype outcome = Returned "string option" | Threw error

type_synonym adapter = "string \<Rightarrow> message list \<Rightarrow> outcome"

definition anthropicEmpty :: error where
  "anthropicEmpty = ''Anthropic response content was empty or not in the expected text format.''"

text \<open>The \<^verbatim>\<open>while\<close> loop that looks for a participant with a key, from
  \<^verbatim>\<open>attempts\<close> on.\<close>

function findModel :: "keyStore \<Rightarrow> conversation \<Rightarrow> nat \<Rightarrow> string option" where
  "findModel ks c attempts =
     (if attempts < length (participants c) then
        (let modelIndex = (currentTurn c + attempts) mod length (participants c);
             testModelId = participants c ! modelIndex
         in if hasApiKey ks (userId c) testModelId then Some testModelId
            else findModel ks c (attempts + 1))
      else None)"
  by pat_completeness auto
termination
  by (relation "measure (\<lambda>(ks, c, attempts). length (participants c) - attempts)") auto

declare findModel.simps [simp del]

definition emit :: "event \<Rightarrow> chain \<Rightarrow> chain" where
  "emit e s = s\<lparr>emitted := emitted s @ [e]\<rparr>"

definition setActive :: "bool \<Rightarrow> chain \<Rightarrow> chain" where
  "setActive b s = s\<lparr>conv := (conv s)\<lparr>isActive := b\<rparr>\<rparr>"

text \<open>\<^verbatim>\<open>continueConversationChain\<close> up to its \<^verbatim>\<open>await\<close>: it returns at once, or it
  has chosen a model, told the client, and calls the adapter with the last 20
  messages.\<close>

datatype turn = NoTurn chain | Calling string "message list" chain

definition beginTurn :: "keyStore \<Rightarrow> chain \<Rightarrow> turn" where
  "beginTurn ks s =
     (if \<not> isActive (conv s) then NoTurn s
      else
        (case findModel ks (conv s) 0 of
           None \<Rightarrow>
             NoTurn (emit (ConversationEnded ''No models with API keys available'')
                       (setActive False s))
         | Some currentModelId \<Rightarrow>
             Calling currentModelId (getConversationHistory (conv s) 20)
               (emit (AiThinking currentModelId) s)))"

text \<open>The answers that \<^verbatim>\<open>!responseText || responseText.trim().length === 0\<close> takes
  for no answer.\<close>

definition blankText :: "string option \<Rightarrow> bool" where
  "blankText t = (t = None \<or> trim (the t) = [])"

text \<open>The two paths that store a placeholder share this much: the placeholder is
  added and the counter goes up.\<close>

definition addPlaceholder :: "string \<Rightarrow> chain \<Rightarrow> chain" where
  "addPlaceholder currentModelId s =
     s\<lparr>conv := (addMessage currentModelId placeholderText (conv s))
          \<lparr>emptyResponseCount := emptyResponseCount (conv s) + 1\<rparr>\<rparr>"

definition nextTurn :: "timer \<Rightarrow> chain \<Rightarrow> chain" where
  "nextTurn t s = s\<lparr>conv := (conv s)\<lparr>currentTurn := currentTurn (conv s) + 1\<rparr>, timer := Some t\<rparr>"

text \<open>\<^verbatim>\<open>continueConversationChain\<close> after its \<^verbatim>\<open>await\<close>.\<close>

definition finishTurn :: "string \<Rightarrow> outcome \<Rightarrow> chain \<Rightarrow> chain" where
  "finishTurn currentModelId result s =
     (case result of
        Returned responseText \<Rightarrow>
          if responseText = None \<or> length (trim (the responseText)) = 0 then
            (let s1 = addPlaceholder currentModelId s
             in if emptyResponseCount (conv s1) \<ge> 5
                then emit (ConversationEnded ''Too many empty responses'') (setActive False s1)
                else nextTurn RecheckActive s1)
          else
            (let c1 = addMessage currentModelId (the responseText)
                        ((conv s)\<lparr>emptyResponseCount := 0\<rparr>);
                 s1 = emit (NewMessage (last (messages c1))) (s\<lparr>conv := c1\<rparr>)
             in nextTurn RecheckActiveAndLimit s1)
      | Threw e \<Rightarrow>
          if e = anthropicEmpty then
            (let s1 = addPlaceholder currentModelId s
             in if emptyResponseCount (conv s1) \<ge> 5
                then emit (ConversationEnded ''Too many empty/failed responses'')
                       (setActive False s1)
                else nextTurn RecheckActive s1)
          else
            nextTurn RecheckActive
              (emit (ErrorEvent (''Error with '' @ currentModelId @ '': '' @ e)
                       (Some currentModelId)) s))"

definition continueConversationChain :: "keyStore \<Rightarrow> adapter \<Rightarrow> chain \<Rightarrow> chain" where
  "continueConversationChain ks generateResponse s =
     (case beginTurn ks s of
        NoTurn s' \<Rightarrow> s'
      | Calling currentModelId history s' \<Rightarrow>
          finishTurn currentModelId (generateResponse currentModelId history) s')"

text \<open>The callback of \<^verbatim>\<open>setTimeout\<close> runs.\<close>

definition fireTimer :: "keyStore \<Rightarrow> adapter \<Rightarrow> chain \<Rightarrow> chain" where
  "fireTimer ks generateResponse s =
     (case timer s of
        None \<Rightarrow> s
      | Some RecheckActive \<Rightarrow>
          if isActive (conv s)
          then continueConversationChain ks generateResponse (s\<lparr>timer := None\<rparr>)
          else s\<lparr>timer := None\<rparr>
      | Some RecheckActiveAndLimit \<Rightarrow>
          if isActive (conv s) \<and> length (messages (conv s)) < 30
          then continueConversationChain ks generateResponse (s\<lparr>timer := None\<rparr>)
          else if isActive (conv s)
          then emit (ConversationEnded ''Message limit reached'')
                 (setActive False (s\<lparr>timer := None\<rparr>))
          else s\<lparr>timer := None\<rparr>)"

text \<open>The handler of \<^verbatim>\<open>stopConversation\<close>.\<close>

definition stopConversation :: "chain \<Rightarrow> chain" where
  "stopConversation s = emit (ConversationEnded ''User requested stop'') (setActive False s)"

text \<open>\<^verbatim>\<open>startConversationChain\<close>: the first message is pushed onto the transcript
  directly.\<close>

definition startConversationChain :: "keyStore \<Rightarrow> adapter \<Rightarrow> string \<Rightarrow> chain \<Rightarrow> chain" where
  "startConversationChain ks generateResponse initialPrompt s =
     (let initialMessage =
            \<lparr>role = ''user'', content = (if initialPrompt = [] then ''Hello'' else initialPrompt),
             provider = ''user''\<rparr>;
          c1 = (conv s)\<lparr>isActive := True\<rparr>;
          c2 = c1\<lparr>messages := messages c1 @ [initialMessage]\<rparr>
      in continueConversationChain ks generateResponse
           (emit (NewMessage initialMessage) (s\<lparr>conv := c2\<rparr>)))"

text \<open>The handler of \<^verbatim>\<open>startConversation\<close>. Its own table \<^verbatim>\<open>modelConfig\<close> has the
  entries of the table of the chain. It collects, for the participants for which the
  table gives a value, the values for which no key is found;
  \<^verbatim>\<open>[...new Set(missingKeys)].join(', ')\<close> keeps the first occurrence of each. With a
  key missing the handler emits an error and creates nothing; otherwise the
  conversation is created, set active and started.\<close>

definition startModelConfig :: "(string \<times> string) list" where
  "startModelConfig = chainModelMapping"

definition missingKeys :: "keyStore \<Rightarrow> string \<Rightarrow> string list \<Rightarrow> string list" where
  "missingKeys ks sessionId models =
     concat (map (\<lambda>participant.
       (case lookupProperty startModelConfig participant of
          None \<Rightarrow> []
        | Some providerName \<Rightarrow>
            (if hasCredential ks providerName sessionId then [] else [providerName]))) models)"

fun joinComma :: "string list \<Rightarrow> string" where
  "joinComma [] = []"
| "joinComma [s] = s"
| "joinComma (s # t # ts) = s @ '', '' @ joinComma (t # ts)"

definition startConversation ::
    "keyStore \<Rightarrow> adapter \<Rightarrow> string \<Rightarrow> string list \<Rightarrow> string \<Rightarrow> event + chain" where
  "startConversation ks generateResponse sessionId models initialPrompt =
     (if length (missingKeys ks sessionId models) > 0 then
        Inl (ErrorEvent (''Missing API keys for: '' @
                         joinComma (rev (remdups (rev (missingKeys ks sessionId models)))) @
                         ''. Please add them in Settings.'') None)
      else
        Inr (startConversationChain ks generateResponse initialPrompt
               \<lparr>conv = (createConversation sessionId models)\<lparr>isActive := True\<rparr>,
                emitted = [ConversationStarted], timer = None\<rparr>))"

text \<open>What happens to a chain after its start: the pending callback runs, with the
  provider answering as given, or the client asks to stop.\<close>

datatype happening = TimerFires adapter | StopRequested

fun happen :: "keyStore \<Rightarrow> chain \<Rightarrow> happening \<Rightarrow> chain" where
  "happen ks s (TimerFires generateResponse) = fireTimer ks generateResponse s"
| "happen ks s StopRequested = stopConversation s"

definition afterwards :: "keyStore \<Rightarrow> happening list \<Rightarrow> chain \<Rightarrow> chain" where
  "afterwards ks hs s = foldl (happen ks) s hs"

text \<open>The turns a chain has attempted are the \<^verbatim>\<open>aiThinking\<close> events it has emitted.\<close>

definition turnsAttempted :: "chain \<Rightarrow> nat" where
  "turnsAttempted s = length (filter (\<lambda>e. case e of AiThinking m \<Rightarrow> True | _ \<Rightarrow> False) (emitted s))"


definition stopNotifications :: "event list \<Rightarrow> string list" where
  "stopNotifications es = concat (map (\<lambda>e. case e of ConversationEnded r \<Rightarrow> [r] | _ \<Rightarrow> []) es)"

section \<open>Needle test\<close>

text \<open>An entry of \<^verbatim>\<open>models\<close>; the type of its numbers is left open.\<close>

record 'n modelConfig = modelRef +
  temperature :: 'n
  maxTokens :: 'n




text \<open>
  A running test: the calls that have not settled yet, by index, the events
  emitted so far, the \<^verbatim>\<open>results\<close> map, and whether \<^verbatim>\<open>Promise.all\<close> has resolved.
  Every callback runs up to its \<^verbatim>\<open>await\<close> when \<^verbatim>\<open>models.map\<close> runs, so all
  \<^verbatim>\<open>aiThinking\<close> events come first, in the order of \<^verbatim>\<open>models\<close>.
\<close>

record needleTest =
  pending :: "nat list"
  sentEvents :: "event list"
  results :: "string \<rightharpoonup> needleResult"
  completed :: bool

definition startNeedleTest :: "'n modelConfig list \<Rightarrow> needleTest" where
  "startNeedleTest models =
     \<lparr>pending = [0..<length models],
      sentEvents = map (\<lambda>modelConfig. AiThinking (modelId modelConfig)) models,
      results = Map.empty, completed = False\<rparr>"

definition settledEvent :: "(nat \<Rightarrow> error + needleResult) \<Rightarrow> 'n modelConfig list \<Rightarrow> nat \<Rightarrow> event" where
  "settledEvent outcomeOf models i =
     (case outcomeOf i of
        Inl e \<Rightarrow> NeedleTestError (modelId (models ! i)) e
      | Inr r \<Rightarrow> NeedleTestResult r)"

text \<open>The call with index \<open>i\<close> settles.\<close>

definition settle ::
    "(nat \<Rightarrow> error + needleResult) \<Rightarrow> 'n modelConfig list \<Rightarrow> nat \<Rightarrow> needleTest \<Rightarrow> needleTest" where
  "settle outcomeOf models i t =
     t\<lparr>pending := removeAll i (pending t),
       sentEvents := sentEvents t @ [settledEvent outcomeOf models i],
       results := (case outcomeOf i of
                     Inl e \<Rightarrow> results t
                   | Inr r \<Rightarrow> (results t)(modelId (models ! i) \<mapsto> r))\<rparr>"

text \<open>\<^verbatim>\<open>await Promise.all(testPromises)\<close> resolves: no callback rejects, since each
  catches its own errors, so this happens when, and only when, all have settled.\<close>

definition allSettled :: "needleTest \<Rightarrow> needleTest" where
  "allSettled t = t\<lparr>sentEvents := sentEvents t @ [AllTestsComplete], completed := True\<rparr>"

inductive needleTestReaches ::
    "(nat \<Rightarrow> error + needleResult) \<Rightarrow> 'n modelConfig list \<Rightarrow> needleTest \<Rightarrow> bool"
  for outcomeOf :: "nat \<Rightarrow> error + needleResult" and models :: "'n modelConfig list" where
  started: "needleTestReaches outcomeOf models (startNeedleTest models)"
| settles: "needleTestReaches outcomeOf models t \<Longrightarrow> i \<in> set (pending t) \<Longrightarrow>
     needleTestReaches outcomeOf models (settle outcomeOf models i t)"
| completes: "needleTestReaches outcomeOf models t \<Longrightarrow> pending t = [] \<Longrightarrow> \<not> completed t \<Longrightarrow>
     needleTestReaches outcomeOf models (allSettled t)"




section \<open>Example inputs\<close>

text \<open>An OpenAI key in the environment, a provider that always answers with white
  space, and one that always answers with text.\<close>

definition exampleKeys :: keyStore where
  "exampleKeys = \<lparr>envApiKeys = [''openai'' \<mapsto> ''sk-example''], userApiKeys = Map.empty\<rparr>"

definition alwaysBlank :: adapter where
  "alwaysBlank currentModelId history = Returned (Some '' '')"

definition alwaysText :: adapter where
  "alwaysText currentModelId history = Returned (Some ''I see.'')"



section \<open>Properties of the match evaluator\<close>

lemma lowerUnit_below256:
  "0 \<le> c \<Longrightarrow> c < 0x100 \<Longrightarrow> lowerUnit c = Some [lowerBelow256 c]"
  by (auto simp: lowerUnit_def lowerBelow256_def)

lemma lowerBelow256_range:
  "0 \<le> c \<Longrightarrow> c < 0x100 \<Longrightarrow> 0 \<le> lowerBelow256 c \<and> lowerBelow256 c < 0x100"
  by (auto simp: lowerBelow256_def)

lemma canonicalize_below256: "0 \<le> c \<Longrightarrow> c < 0x100 \<Longrightarrow> canonicalize c \<noteq> None"
  by (simp add: canonicalize_def)

lemma canonicalize_lowerBelow256:
  "0 \<le> c \<Longrightarrow> c < 0x100 \<Longrightarrow> canonicalize (lowerBelow256 c) = canonicalize c"
  by (auto simp: canonicalize_def lowerBelow256_def)

lemma isWordUnit_lowerBelow256: "isWordUnit (lowerBelow256 c) = isWordUnit c"
  by (auto simp: isWordUnit_def lowerBelow256_def)

lemma toLowerCase_below256: "below256 s \<Longrightarrow> toLowerCase s = Some (map lowerBelow256 s)"
  by (induction s) (simp_all add: below256_def lowerUnit_below256)

lemma lowerUnit_canonical:
  assumes "lowerUnit c = Some l"
  shows "list_all (\<lambda>u. canonicalize u \<noteq> None) l"
proof -
  have "0 \<le> c + 0x20 \<and> c + 0x20 < 0x100"
    if "(0x41 \<le> c \<and> c \<le> 0x5A) \<or> (0xC0 \<le> c \<and> c \<le> 0xDE \<and> c \<noteq> 0xD7)"
    using that by auto
  moreover have "canonicalize 0x69 \<noteq> None" "canonicalize 0x307 \<noteq> None"
    by (simp_all add: canonicalize_def)
  ultimately show ?thesis
    using assms canonicalize_below256
    by (auto simp: lowerUnit_def split: if_splits)
qed

lemma toLowerCase_canonical:
  "toLowerCase s = Some l \<Longrightarrow> list_all (\<lambda>u. canonicalize u \<noteq> None) l"
proof (induction s arbitrary: l)
  case Nil
  then show ?case by simp
next
  case (Cons c s)
  then obtain a b where a: "lowerUnit c = Some a" and b: "toLowerCase s = Some b" and l: "l = a @ b"
    by (auto split: option.splits)
  from lowerUnit_canonical [OF a] Cons.IH [OF b] l show ?case by simp
qed

lemma toLowerCase_Nil_iff: "toLowerCase s = Some [] \<Longrightarrow> s = []"
  by (cases s) (auto simp: lowerUnit_def split: option.splits if_splits)

lemma b_not_syntax: "0x62 \<notin> set syntaxChars"
  by (simp add: syntaxChars_def utf16_def backslash_def)

lemma backslash_syntax: "backslash \<in> set syntaxChars"
  by (simp add: syntaxChars_def)

lemma parse_plain: "c \<notin> set syntaxChars \<Longrightarrow>
    parsePattern (c # xs) = map_option (Cons (Literal c)) (parsePattern xs)"
  using backslash_syntax by (cases xs) auto

lemma parse_escaped: "c \<in> set syntaxChars \<Longrightarrow>
    parsePattern (backslash # c # xs) = map_option (Cons (Literal c)) (parsePattern xs)"
  using b_not_syntax by auto

lemma parse_boundary:
  "parsePattern (backslash # 0x62 # xs) = map_option (Cons WordBoundary) (parsePattern xs)"
  by simp

lemma parse_escapeRegExp:
  "parsePattern (escapeRegExp t @ xs) = map_option (\<lambda>as. map Literal t @ as) (parsePattern xs)"
proof (induction t)
  case Nil
  show ?case by (simp add: escapeRegExp_def option.map_ident)
next
  case (Cons c t)
  have step: "escapeRegExp (c # t) @ xs =
      (if c \<in> set syntaxChars then backslash # c # (escapeRegExp t @ xs)
       else c # (escapeRegExp t @ xs))"
    by (simp add: escapeRegExp_def)
  show ?case
    unfolding step using Cons.IH
    by (simp add: parse_plain parse_escaped option.map_comp comp_def del: parsePattern.simps)
qed

lemma parse_wordBoundaryRegex:
  "parsePattern (backslash # 0x62 # escapeRegExp t @ [backslash, 0x62]) =
     Some (WordBoundary # map Literal t @ [WordBoundary])"
proof -
  have "parsePattern [backslash, 0x62] = Some [WordBoundary]"
    by simp
  then show ?thesis
    unfolding parse_boundary parse_escapeRegExp by simp
qed

lemma matchAt_literals:
  "i \<le> length s \<Longrightarrow> matchAt (map Literal t @ as) s i =
     (i + length t \<le> length s \<and>
      map canonicalize (take (length t) (drop i s)) = map canonicalize t \<and>
      matchAt as s (i + length t))"
proof (induction t arbitrary: i)
  case Nil
  then show ?case by simp
next
  case (Cons c t)
  have "i < length s \<Longrightarrow> take (Suc (length t)) (drop i s) = s ! i # take (length t) (drop (Suc i) s)"
    by (metis Cons_nth_drop_Suc take_Suc_Cons)
  with Cons.IH [of "Suc i"] Cons.prems show ?case
    by (cases "i < length s") auto
qed

lemma matchAt_wordBoundary:
  assumes "i \<le> length s"
  shows "matchAt (WordBoundary # map Literal t @ [WordBoundary]) s i =
      (i + length t \<le> length s \<and> isBoundary s i \<and> isBoundary s (i + length t) \<and>
       map canonicalize (take (length t) (drop i s)) = map canonicalize t)"
  using assms by (auto simp: matchAt_literals)

lemma list_ex_positions:
  "list_ex P [0..<Suc (length s)] = (\<exists>i\<le>length s. P i)"
  unfolding list_ex_iff by (auto simp: less_Suc_eq_le simp del: upt_Suc)

lemma positions_wordBoundary:
  "list_ex (matchAt (WordBoundary # map Literal t @ [WordBoundary]) s) [0..<Suc (length s)] =
     wholeWordMatch t s"
proof
  assume "list_ex (matchAt (WordBoundary # map Literal t @ [WordBoundary]) s) [0..<Suc (length s)]"
  then obtain i where i: "i \<le> length s"
    and m: "matchAt (WordBoundary # map Literal t @ [WordBoundary]) s i"
    unfolding list_ex_positions by blast
  from m show "wholeWordMatch t s"
    unfolding matchAt_wordBoundary [OF i] wholeWordMatch_def by blast
next
  assume "wholeWordMatch t s"
  then obtain i where b: "i + length t \<le> length s" "isBoundary s i"
      "isBoundary s (i + length t)"
      "map canonicalize (take (length t) (drop i s)) = map canonicalize t"
    unfolding wholeWordMatch_def by blast
  from b(1) have i: "i \<le> length s" by simp
  from b have "matchAt (WordBoundary # map Literal t @ [WordBoundary]) s i"
    unfolding matchAt_wordBoundary [OF i] by blast
  with i show "list_ex (matchAt (WordBoundary # map Literal t @ [WordBoundary]) s) [0..<Suc (length s)]"
    unfolding list_ex_positions by blast
qed

lemma regexTest_wordBoundary:
  assumes "list_all (\<lambda>u. canonicalize u \<noteq> None) t" "list_all (\<lambda>u. canonicalize u \<noteq> None) s"
  shows "regexTest (WordBoundary # map Literal t @ [WordBoundary]) s = Some (wholeWordMatch t s)"
proof -
  have "list_all canonical (WordBoundary # map Literal t @ [WordBoundary])"
    using assms(1) by (simp add: list_all_iff)
  with assms(2) show ?thesis
    unfolding regexTest_def positions_wordBoundary by simp
qed

lemma set_trimUnits: "set (trimUnits s) \<subseteq> set s"
proof -
  have "set (dropWhile P xs) \<subseteq> set xs" for P and xs :: jsString
    by (auto dest: set_dropWhileD)
  then have "set (dropWhile isWhiteSpaceUnit (rev (dropWhile isWhiteSpaceUnit s))) \<subseteq> set s"
    by (metis set_rev subset_trans)
  then show ?thesis
    by (simp add: trimUnits_def)
qed

lemma below256_trimUnits: "below256 s \<Longrightarrow> below256 (trimUnits s)"
  using set_trimUnits [of s] by (auto simp: below256_def list_all_iff)

lemma trimUnits_Nil: "trimUnits [] = []"
  by (simp add: trimUnits_def)

lemma checkExactMatch_empty:
  "trimUnits r = [] \<or> trimUnits t = [] \<Longrightarrow> checkExactMatch r t = Some False"
  by (auto simp: checkExactMatch_def Let_def)

lemma checkExactMatch_lowered:
  assumes "trimUnits r \<noteq> []" "trimUnits t \<noteq> []"
    and "toLowerCase (trimUnits r) = Some lr" "toLowerCase (trimUnits t) = Some lt"
  shows "checkExactMatch r t = Some (wholeWordMatch lt lr)"
proof -
  from assms(1,2) have "r \<noteq> []" "t \<noteq> []"
    using trimUnits_Nil by auto
  moreover have "regexTest (WordBoundary # map Literal lt @ [WordBoundary]) lr =
      Some (wholeWordMatch lt lr)"
    using toLowerCase_canonical [OF assms(4)] toLowerCase_canonical [OF assms(3)]
    by (rule regexTest_wordBoundary)
  ultimately show ?thesis
    using assms unfolding checkExactMatch_def Let_def
    by (simp add: parse_wordBoundaryRegex del: parsePattern.simps)
qed

lemma below256_canonical: "below256 s \<Longrightarrow> list_all (\<lambda>u. canonicalize u \<noteq> None) s"
  unfolding below256_def list_all_iff using canonicalize_below256 by blast

lemma matches_below256:
  assumes "below256 r" "below256 t"
  shows "matches r t =
     Some (trimUnits r \<noteq> [] \<and> trimUnits t \<noteq> [] \<and> wholeWordMatch (trimUnits t) (trimUnits r))"
  using below256_canonical [OF below256_trimUnits [OF assms(1)]]
    below256_canonical [OF below256_trimUnits [OF assms(2)]]
  unfolding matches_def Let_def
  by (auto simp: parse_wordBoundaryRegex regexTest_wordBoundary simp del: parsePattern.simps)

lemma wordCharAt_lower: "wordCharAt (map lowerBelow256 s) i = wordCharAt s i"
  by (auto simp: wordCharAt_def isWordUnit_lowerBelow256)

lemma isBoundary_lower: "isBoundary (map lowerBelow256 s) i = isBoundary s i"
  by (simp add: isBoundary_def wordCharAt_lower)

lemma canonicalize_map_lower:
  "below256 s \<Longrightarrow> map canonicalize (map lowerBelow256 s) = map canonicalize s"
  by (auto simp: below256_def list_all_iff canonicalize_lowerBelow256)

lemma below256_take_drop: "below256 s \<Longrightarrow> below256 (take n (drop i s))"
  by (auto simp: below256_def list_all_iff dest: in_set_takeD in_set_dropD)

lemma wholeWordMatch_lower:
  assumes "below256 s" "below256 t"
  shows "wholeWordMatch (map lowerBelow256 t) (map lowerBelow256 s) = wholeWordMatch t s"
proof -
  have s': "map canonicalize (take n (drop i (map lowerBelow256 s))) =
      map canonicalize (take n (drop i s))" for n i
    using canonicalize_map_lower [OF below256_take_drop [OF assms(1), of n i]]
    by (simp add: take_map drop_map)
  have t': "map canonicalize (map lowerBelow256 t) = map canonicalize t"
    by (rule canonicalize_map_lower [OF assms(2)])
  show ?thesis
    unfolding wholeWordMatch_def length_map isBoundary_lower s' t' ..
qed

lemma checkExactMatch_below256:
  assumes "below256 r" "below256 t"
  shows "checkExactMatch r t = matches r t"
proof (cases "trimUnits r = [] \<or> trimUnits t = []")
  case True
  then show ?thesis
    using checkExactMatch_empty [OF True] by (auto simp: matches_def Let_def)
next
  case False
  note br = below256_trimUnits [OF assms(1)] and bt = below256_trimUnits [OF assms(2)]
  from False have ne: "trimUnits r \<noteq> []" "trimUnits t \<noteq> []" by simp_all
  have "checkExactMatch r t =
      Some (wholeWordMatch (map lowerBelow256 (trimUnits t)) (map lowerBelow256 (trimUnits r)))"
    using ne toLowerCase_below256 [OF br] toLowerCase_below256 [OF bt]
    by (rule checkExactMatch_lowered)
  then show ?thesis
    using False by (simp add: wholeWordMatch_lower [OF br bt] matches_below256 [OF assms])
qed

lemma of_char_range: "0 \<le> (of_char c :: int) \<and> (of_char c :: int) < 0x100"
proof -
  have "(of_char c :: nat) < 256"
    by (metis of_char_mod_256 mod_less_divisor zero_less_numeral)
  moreover have "(of_char c :: int) = int (of_char c)"
    by (simp only: of_nat_of_char)
  ultimately show ?thesis by simp
qed

lemma below256_utf16: "below256 (utf16 s)"
  by (simp add: below256_def utf16_def list_all_iff of_char_range)

lemma trim_Nil: "trim [] = []"
  by (simp add: trim_def)

text \<open>
  Claim C1 as amended. \<^verbatim>\<open>checkExactMatch\<close> trims both inputs and returns false when
  either is empty after trimming. Otherwise it lowers both with \<^verbatim>\<open>toLowerCase\<close> and
  returns true exactly when the lowered target occurs in the lowered response between
  two word boundaries, compared without regard to case (the pattern made of the
  escaped lowered target between two \<^verbatim>\<open>\b\<close> anchors, with the \<^verbatim>\<open>i\<close> flag). For
  strings of code units below 256 that is the evaluator the specification
  describes, which matches the target against the response as they are. The
  examples of the specification come out as it says, and an empty argument gives
  false.
\<close>

theorem C1_checkExactMatch:
  "(trimUnits r = [] \<or> trimUnits t = [] \<longrightarrow> checkExactMatch r t = Some False) \<and>
   (\<forall>lr lt. trimUnits r \<noteq> [] \<and> trimUnits t \<noteq> [] \<and>
            toLowerCase (trimUnits r) = Some lr \<and> toLowerCase (trimUnits t) = Some lt \<longrightarrow>
            checkExactMatch r t = Some (wholeWordMatch lt lr)) \<and>
   (below256 r \<and> below256 t \<longrightarrow>
      checkExactMatch r t = matches r t \<and>
      matches r t =
        Some (trimUnits r \<noteq> [] \<and> trimUnits t \<noteq> [] \<and>
              wholeWordMatch (trimUnits t) (trimUnits r))) \<and>
   checkExactMatch (utf16 ''The code is ABC123.'') (utf16 ''abc123'') = Some True \<and>
   checkExactMatch (utf16 ''a915609a'') (utf16 ''15609'') = Some False \<and>
   checkExactMatch [] t = Some False \<and>
   checkExactMatch r [] = Some False"
proof -
  have "checkExactMatch (utf16 ''The code is ABC123.'') (utf16 ''abc123'') = Some True"
    by code_simp
  moreover have "checkExactMatch (utf16 ''a915609a'') (utf16 ''15609'') = Some False"
    by code_simp
  moreover have "checkExactMatch [] t = Some False" "checkExactMatch r [] = Some False"
    by (simp_all add: checkExactMatch_def)
  moreover note checkExactMatch_empty [of r t] checkExactMatch_lowered [of r t]
    checkExactMatch_below256 [of r t] matches_below256 [of r t]
  ultimately show ?thesis
    by blast
qed

theorem C1_checkExactMatch_witness:
  "matches (utf16 ''The code is ABC123.'') (utf16 ''abc123'') = Some True"
proof -
  have "below256 (utf16 ''The code is ABC123.'') \<and> below256 (utf16 ''abc123'')"
    by (simp add: below256_utf16)
  with C1_checkExactMatch [of "utf16 ''The code is ABC123.''" "utf16 ''abc123''"]
  have "checkExactMatch (utf16 ''The code is ABC123.'') (utf16 ''abc123'') =
          matches (utf16 ''The code is ABC123.'') (utf16 ''abc123'')"
    and "checkExactMatch (utf16 ''The code is ABC123.'') (utf16 ''abc123'') = Some True"
    by blast+
  then show ?thesis by simp
qed

text \<open>
  The claim as written says that the code gives what the evaluator of the
  specification gives, for every response and target. For the response
  \<^verbatim>\<open>'a\u0130x'\<close> and the target \<^verbatim>\<open>'\u0130x'\<close> it does not. The evaluator of the
  specification finds the target after the \<^verbatim>\<open>a\<close>, where a word boundary is, since
  \<open>0x130\<close> is no word character. The code lowers both strings first, which turns
  \<open>0x130\<close> into an \<^verbatim>\<open>i\<close> and a combining dot: between \<^verbatim>\<open>a\<close> and \<^verbatim>\<open>i\<close> there is no
  word boundary, and the code returns false.
\<close>

theorem C1_lowercasing_counterexample:
  "checkExactMatch [0x61, 0x130, 0x78] [0x130, 0x78] = Some False \<and>
   matches [0x61, 0x130, 0x78] [0x130, 0x78] = Some True"
  by code_simp

section \<open>Properties of the provider adapter\<close>

lemma extract_priority:
  "shapeOutputText resp = Some t \<Longrightarrow> extractResponseText resp = Inr t"
  by (simp add: extractResponseText_def)

lemma extract_direct_over_legacy:
  "shapeOutputText resp = Some t \<Longrightarrow> shapeChoiceMessage resp = Some u \<Longrightarrow>
     extractResponseText resp = Inr t"
  by (simp add: extractResponseText_def)

lemma extract_sound:
  "extractResponseText resp = Inr t \<Longrightarrow> \<exists>shape \<in> set knownShapes. shape resp = Some t"
  by (auto simp: extractResponseText_def knownShapes_def noShape_def
      split: option.splits if_splits)

lemma extract_none:
  "\<forall>shape \<in> set knownShapes. shape resp = None \<Longrightarrow>
     extractResponseText resp = noShape resp"
  by (auto simp: extractResponseText_def knownShapes_def split: option.splits)

lemma validMessages_eq:
  "validMessages msgs = filter (\<lambda>msg. trim (content msg) \<noteq> []) msgs"
  unfolding validMessages_def
  by (rule filter_cong) (auto simp: trim_Nil)

lemma foldl_appendTurn:
  "foldl appendTurn acc ms =
     acc @ concat (map (\<lambda>msg. speaker msg @ '': '' @ content msg @ blankLine) ms)"
  by (induction ms arbitrary: acc) (simp_all add: appendTurn_def)

lemma conversationContext_eq:
  "conversationContext valid =
     geminiHeader (initialPromptOf valid) @
     concat (map (\<lambda>msg. speaker msg @ '': '' @ content msg @ blankLine) valid) @
     geminiTrailer"
  by (simp add: conversationContext_def foldl_appendTurn)

lemma gemini_no_valid:
  "validMessages msgs = [] \<Longrightarrow>
     generateGeminiResponse call msgs = ([], Inl ''No valid messages to process'')"
  by (simp add: generateGeminiResponse_def)

lemma gemini_valid:
  "validMessages msgs \<noteq> [] \<Longrightarrow>
     fst (generateGeminiResponse call msgs) = [conversationContext (validMessages msgs)]"
  by (simp add: generateGeminiResponse_def Let_def split: settled.splits)

lemma initialPromptOf_valid:
  "initialPromptOf (validMessages msgs) =
     (case find (\<lambda>msg. provider msg = ''user'') (validMessages msgs) of
        None \<Rightarrow> ''General discussion'' | Some msg \<Rightarrow> content msg)"
proof (cases "find (\<lambda>msg. provider msg = ''user'') (validMessages msgs)")
  case None
  then show ?thesis by (simp add: initialPromptOf_def)
next
  case (Some m)
  then have "m \<in> set (validMessages msgs)"
    by (auto simp: find_Some_iff)
  then have "content m \<noteq> []"
    by (simp add: validMessages_def)
  with Some show ?thesis by (simp add: initialPromptOf_def)
qed

lemma joinBlankLine_snoc:
  "ss \<noteq> [] \<Longrightarrow> joinBlankLine (ss @ [s]) = joinBlankLine ss @ blankLine @ s"
  by (induction ss rule: joinBlankLine.induct) simp_all

lemma mergedRun_single: "mergedRun [m] = m"
  by (simp add: mergedRun_def)

lemma mergedRun_snoc:
  "run \<noteq> [] \<Longrightarrow>
   mergedRun (run @ [m]) = (mergedRun run)\<lparr>content := content (mergedRun run) @ blankLine @ content m\<rparr>"
  by (simp add: mergedRun_def joinBlankLine_snoc)

lemma sameRoleRun_single: "sameRoleRun [m]"
  by (simp add: sameRoleRun_def)

lemma sameRoleRun_snoc:
  "sameRoleRun run \<Longrightarrow> role m = role (hd run) \<Longrightarrow> sameRoleRun (run @ [m])"
  by (simp add: sameRoleRun_def)

lemma role_mergedRun: "role (mergedRun run) = role (hd run)"
  by (simp add: mergedRun_def)

lemma alternating_roles:
  "map role xs = map role ys \<Longrightarrow> alternating xs = alternating ys"
proof (induction xs arbitrary: ys rule: alternating.induct)
  case 1
  then show ?case by simp
next
  case (2 m)
  then show ?case by (cases ys) auto
next
  case (3 m n ms)
  then obtain m' n' ms' where ys: "ys = m' # n' # ms'"
    by (cases ys; cases "tl ys") auto
  with 3 have "map role (n # ms) = map role (n' # ms')" by simp
  from "3.IH" [OF this] 3 ys show ?case by auto
qed

lemma alternating_snoc:
  "xs \<noteq> [] \<Longrightarrow> alternating (xs @ [m]) = (alternating xs \<and> role (last xs) \<noteq> role m)"
  by (induction xs rule: alternating.induct) auto

lemma mergedFrom_first: "mergedFrom [m] [m]"
  unfolding mergedFrom_def
  by (auto intro!: exI [of _ "[[m]]"] simp: sameRoleRun_single mergedRun_single)

lemma mergeStep_same:
  assumes "claudeRole (role m) = role (last processed)"
    and "role (last processed) = ''assistant'' \<or> role (last processed) = ''user''"
  shows "mergeStep processed m =
     butlast processed @ [(last processed)\<lparr>content := content (last processed) @ blankLine @ content m\<rparr>]"
  using assms by (auto simp: mergeStep_def Let_def)

lemma mergeStep_other:
  assumes "claudeRole (role m) \<noteq> role (last processed)"
  shows "mergeStep processed m = processed @ [toApi m]"
  using assms by (auto simp: mergeStep_def Let_def toApi_def)

lemma mergedFrom_step:
  assumes inv: "mergedFrom processed seen"
    and roles: "\<forall>p \<in> set processed. role p = ''assistant'' \<or> role p = ''user''"
  shows "mergedFrom (mergeStep processed m) (seen @ [toApi m])"
proof -
  from inv obtain runs where ne: "processed \<noteq> []" and alt: "alternating processed"
    and cat: "concat runs = seen" and same: "list_all sameRoleRun runs"
    and proc: "processed = map mergedRun runs"
    unfolding mergedFrom_def by blast
  from ne proc have "runs \<noteq> []" by auto
  then obtain rs r where runs: "runs = rs @ [r]"
    by (metis rev_exhaust)
  from same runs have r: "sameRoleRun r" by simp
  then have rne: "r \<noteq> []" by (simp add: sameRoleRun_def)
  from proc runs have lastp: "last processed = mergedRun r"
    and butlastp: "butlast processed = map mergedRun rs"
    by simp_all
  from roles ne have lastrole: "role (last processed) = ''assistant'' \<or> role (last processed) = ''user''"
    by simp
  show ?thesis
  proof (cases "claudeRole (role m) = role (last processed)")
    case True
    let ?runs = "rs @ [r @ [toApi m]]"
    have step: "mergeStep processed m = map mergedRun ?runs"
      using mergeStep_same [OF True lastrole] lastp butlastp rne
      by (simp add: mergedRun_snoc toApi_def)
    have "role (toApi m) = role (hd r)"
      using True lastp by (simp add: toApi_def role_mergedRun)
    with r have "sameRoleRun (r @ [toApi m])"
      by (rule sameRoleRun_snoc)
    with same runs have same': "list_all sameRoleRun ?runs" by simp
    have cat': "concat ?runs = seen @ [toApi m]"
      using cat runs by simp
    have "map role (map mergedRun ?runs) = map role processed"
      using proc runs rne by (simp add: role_mergedRun)
    then have "alternating (map mergedRun ?runs)"
      using alt alternating_roles by blast
    moreover have "\<exists>runs'. concat runs' = seen @ [toApi m] \<and> list_all sameRoleRun runs' \<and>
        mergeStep processed m = map mergedRun runs'"
      using step same' cat' by blast
    ultimately show ?thesis
      unfolding mergedFrom_def step by simp
  next
    case False
    let ?runs = "runs @ [[toApi m]]"
    have step: "mergeStep processed m = map mergedRun ?runs"
      using mergeStep_other [OF False] proc by (simp add: mergedRun_single)
    have "role (last processed) \<noteq> role (toApi m)"
      using False by (simp add: toApi_def)
    then have "alternating (processed @ [toApi m])"
      using alt ne by (simp add: alternating_snoc)
    then have "alternating (map mergedRun ?runs)"
      using proc by (simp add: mergedRun_single)
    moreover have "list_all sameRoleRun ?runs"
      using same by (simp add: sameRoleRun_single)
    moreover have "concat ?runs = seen @ [toApi m]"
      using cat by simp
    ultimately have "alternating (map mergedRun ?runs) \<and>
        (\<exists>runs'. concat runs' = seen @ [toApi m] \<and> list_all sameRoleRun runs' \<and>
          map mergedRun ?runs = map mergedRun runs')"
      by blast
    then show ?thesis
      unfolding mergedFrom_def step by simp
  qed
qed

lemma roles_mergeStep:
  assumes "\<forall>p \<in> set processed. role p = ''assistant'' \<or> role p = ''user''"
    and "role m = ''user'' \<or> role m = ''ai''" and "processed \<noteq> []"
  shows "\<forall>p \<in> set (mergeStep processed m). role p = ''assistant'' \<or> role p = ''user''"
proof -
  have "set (butlast processed) \<subseteq> set processed"
    by (auto dest: in_set_butlastD)
  moreover have "last processed \<in> set processed"
    using assms(3) by simp
  ultimately show ?thesis
    using assms(1,2) unfolding mergeStep_def Let_def claudeRole_def
    by (auto split: if_splits)
qed

lemma mergedFrom_foldl:
  assumes "mergedFrom processed seen"
    and "\<forall>p \<in> set processed. role p = ''assistant'' \<or> role p = ''user''"
    and "\<forall>m \<in> set rest. role m = ''user'' \<or> role m = ''ai''"
  shows "mergedFrom (foldl mergeStep processed rest) (seen @ map toApi rest) \<and>
         (\<forall>p \<in> set (foldl mergeStep processed rest). role p = ''assistant'' \<or> role p = ''user'')"
  using assms
proof (induction rest arbitrary: processed seen)
  case Nil
  then show ?case by simp
next
  case (Cons m rest)
  have ne: "processed \<noteq> []"
    using Cons.prems(1) by (simp add: mergedFrom_def)
  have 1: "mergedFrom (mergeStep processed m) (seen @ [toApi m])"
    using Cons.prems(1,2) by (rule mergedFrom_step)
  have 2: "\<forall>p \<in> set (mergeStep processed m). role p = ''assistant'' \<or> role p = ''user''"
    using roles_mergeStep [of processed m] Cons.prems(2,3) ne by simp
  have 3: "\<forall>m \<in> set rest. role m = ''user'' \<or> role m = ''ai''"
    using Cons.prems(3) by simp
  from Cons.IH [OF 1 2 3] show ?case by simp
qed


lemma startsWith_refl: "startsWith s s"
  by (induction s) simp_all

lemma includesStr_refl: "includesStr s s"
  by (cases s) (simp_all add: startsWith_refl)

lemma initialPromptOf_nonempty: "initialPromptOf msgs \<noteq> []"
  by (simp add: initialPromptOf_def split: option.splits)

lemma processMessages_runs:
  assumes "\<forall>m \<in> set msgs. role m = ''user'' \<or> role m = ''ai''"
  shows "(\<exists>runs. concat runs = map toApi (filteredMessages msgs) \<and> list_all sameRoleRun runs \<and>
            processMessages msgs = map mergedRun runs) \<and>
         alternating (processMessages msgs) \<and>
         (\<forall>p \<in> set (processMessages msgs). role p = ''assistant'' \<or> role p = ''user'')"
proof (cases "filteredMessages msgs")
  case Nil
  then have "processMessages msgs = []"
    by (simp add: processMessages_def)
  with Nil show ?thesis by simp
next
  case (Cons first rest)
  then have ne: "msgs \<noteq> []"
    by (auto simp: filteredMessages_def)
  have sub: "set (filteredMessages msgs) \<subseteq> set msgs"
    by (auto simp: filteredMessages_def)
  with assms Cons have roles: "role first = ''user'' \<or> role first = ''ai''"
    "\<forall>m \<in> set rest. role m = ''user'' \<or> role m = ''ai''"
    by auto
  have proc: "processMessages msgs = foldl mergeStep [toApi first] rest"
    using Cons ne by (simp add: processMessages_def toApi_def)
  have "\<forall>p \<in> set [toApi first]. role p = ''assistant'' \<or> role p = ''user''"
    using roles(1) by (auto simp: toApi_def claudeRole_def)
  from mergedFrom_foldl [OF mergedFrom_first this roles(2)]
  show ?thesis
    unfolding proc Cons mergedFrom_def by simp
qed

lemma formattedMessages_unfold:
  "formattedMessages msgs =
     (let processed = processMessages msgs;
          shaped = (if processed = []
                    then [\<lparr>role = ''user'', content = initialPromptOf msgs\<rparr>] else processed)
      in if role (last shaped) = ''assistant''
         then shaped @ [\<lparr>role = ''user'', content = ''Please continue the conversation.''\<rparr>]
         else shaped)"
  by (simp add: formattedMessages_def addContinuation_def addDefaultUser_def Let_def
      initialPromptOf_nonempty)

text \<open>
  Claim C7. For a history whose roles are \<^verbatim>\<open>'user'\<close> and \<^verbatim>\<open>'ai'\<close>, the messages of the
  Claude request are built as follows. No message whose content is the placeholder
  goes into the shaping. The messages that do are cut into runs of one role, and each
  run becomes one message, its content the contents of the run joined by a blank
  line, so that no two neighbours have the same role. If nothing is left, the list
  is one user message with the original prompt (the first message of the user, or
  \<^verbatim>\<open>'General discussion'\<close>). If the last message is from the assistant, a user
  message \<^verbatim>\<open>'Please continue the conversation.'\<close> is appended. The list sent is
  never empty, alternates, and ends with a user message.
\<close>

theorem C7_claude_shaping:
  assumes "\<forall>m \<in> set msgs. role m = ''user'' \<or> role m = ''ai''"
  shows "(\<nexists>m. m \<in> set (filteredMessages msgs) \<and> content m = placeholderText) \<and>
         (\<exists>runs. concat runs = map toApi (filteredMessages msgs) \<and> list_all sameRoleRun runs \<and>
            processMessages msgs = map mergedRun runs) \<and>
         alternating (processMessages msgs) \<and>
         formattedMessages msgs =
           (let processed = processMessages msgs;
                shaped = (if processed = []
                          then [\<lparr>role = ''user'', content = initialPromptOf msgs\<rparr>]
                          else processed)
            in if role (last shaped) = ''assistant''
               then shaped @ [\<lparr>role = ''user'', content = ''Please continue the conversation.''\<rparr>]
               else shaped) \<and>
         formattedMessages msgs \<noteq> [] \<and>
         alternating (formattedMessages msgs) \<and>
         role (last (formattedMessages msgs)) = ''user''"
proof -
  note p = processMessages_runs [OF assms]
  have dropped: "\<nexists>m. m \<in> set (filteredMessages msgs) \<and> content m = placeholderText"
    by (auto simp: filteredMessages_def includesStr_refl)
  have alt: "alternating (processMessages msgs)"
    and roles: "\<forall>p \<in> set (processMessages msgs). role p = ''assistant'' \<or> role p = ''user''"
    using p by blast+
  have shape: "formattedMessages msgs \<noteq> [] \<and> alternating (formattedMessages msgs) \<and>
      role (last (formattedMessages msgs)) = ''user''"
  proof (cases "processMessages msgs = []")
    case True
    then show ?thesis
      by (simp add: formattedMessages_unfold)
  next
    case False
    then have "role (last (processMessages msgs)) = ''assistant'' \<or>
        role (last (processMessages msgs)) = ''user''"
      using roles by simp
    with False alt show ?thesis
      by (auto simp: formattedMessages_unfold alternating_snoc)
  qed
  from dropped p shape show ?thesis
    using formattedMessages_unfold [of msgs] by blast
qed

theorem C7_claude_shaping_witness:
  "formattedMessages
     [\<lparr>role = ''user'', content = ''Hi'', provider = ''user''\<rparr>,
      \<lparr>role = ''ai'', content = ''One'', provider = ''gpt-4''\<rparr>,
      \<lparr>role = ''ai'', content = ''Two'', provider = ''claude-3-opus''\<rparr>] =
     [\<lparr>role = ''user'', content = ''Hi''\<rparr>,
      \<lparr>role = ''assistant'', content = ''One'' @ [CHR 0x0A, CHR 0x0A] @ ''Two''\<rparr>,
      \<lparr>role = ''user'', content = ''Please continue the conversation.''\<rparr>] \<and>
   role (last (formattedMessages
     [\<lparr>role = ''user'', content = ''Hi'', provider = ''user''\<rparr>,
      \<lparr>role = ''ai'', content = ''One'', provider = ''gpt-4''\<rparr>,
      \<lparr>role = ''ai'', content = ''Two'', provider = ''claude-3-opus''\<rparr>])) = ''user''"
proof -
  let ?h = "[\<lparr>role = ''user'', content = ''Hi'', provider = ''user''\<rparr>,
      \<lparr>role = ''ai'', content = ''One'', provider = ''gpt-4''\<rparr>,
      \<lparr>role = ''ai'', content = ''Two'', provider = ''claude-3-opus''\<rparr>]"
  have h: "\<forall>m \<in> set ?h. role m = ''user'' \<or> role m = ''ai''"
    by simp
  have "role (last (formattedMessages ?h)) = ''user''"
    using C7_claude_shaping [OF h] by blast
  moreover have "formattedMessages ?h =
     [\<lparr>role = ''user'', content = ''Hi''\<rparr>,
      \<lparr>role = ''assistant'', content = ''One'' @ [CHR 0x0A, CHR 0x0A] @ ''Two''\<rparr>,
      \<lparr>role = ''user'', content = ''Please continue the conversation.''\<rparr>]"
    by (simp add: formattedMessages_def addContinuation_def addDefaultUser_def processMessages_def
        filteredMessages_def mergeStep_def claudeRole_def placeholderText_def blankLine_def
        initialPromptOf_def Let_def)
  ultimately show ?thesis by blast
qed

text \<open>
  Claim C8. \<^verbatim>\<open>generateGeminiResponse\<close> keeps the messages whose content is not empty
  and not only white space. When none is left it fails with
  \<^verbatim>\<open>'No valid messages to process'\<close> and sends nothing to the provider. Otherwise it
  sends one prompt, which is: the framing text with the goal between double quotes
  (the content of the first message of the user among those kept, or
  \<^verbatim>\<open>'General discussion'\<close> when there is none), the heading \<^verbatim>\<open>Conversation so far:\<close>, one
  block \<^verbatim>\<open>Speaker: content\<close> followed by an empty line per kept message in order, where
  the speaker is \<^verbatim>\<open>Human\<close> for the user and \<^verbatim>\<open>AI (model)\<close> for a model, and the
  instruction that ends the prompt.
\<close>

theorem C8_gemini_flattening:
  "generateGeminiResponse call msgs =
     (let valid = filter (\<lambda>m. trim (content m) \<noteq> []) msgs
      in if valid = [] then ([], Inl ''No valid messages to process'')
         else
           let goal = (case find (\<lambda>m. provider m = ''user'') valid of
                         None \<Rightarrow> ''General discussion'' | Some m \<Rightarrow> content m);
               prompt =
                 ''You are having a natural conversation with other AIs about: '' @
                 [CHR 0x22] @
                 goal @
                 [CHR 0x22, CHR 0x0A, CHR 0x0A] @
                 ''Respond naturally by: building on previous points, sharing your own '' @
                 ''perspective, agreeing or respectfully disagreeing, making '' @
                 ''observations, or offering new angles. Mix up your response style - '' @
                 ''sometimes make statements, sometimes share insights, sometimes pose '' @
                 ''questions, but don'' @
                 [CHR 0x27] @
                 ''t end every response with a question. Keep the conversation flowing '' @
                 ''naturally like friends discussing a topic. Be authentic and avoid '' @
                 ''assistant-like phrases.'' @
                 [CHR 0x0A, CHR 0x0A] @
                 ''Conversation so far:'' @
                 [CHR 0x0A, CHR 0x0A] @
                 concat (map (\<lambda>m. (if provider m = ''user'' then ''Human''
                                    else ''AI ('' @ provider m @ '')'') @
                                   '': '' @ content m @ [CHR 0x0A, CHR 0x0A]) valid) @
                 ''Now respond naturally - maybe build on what was said, share your '' @
                 ''perspective, make an observation, or take the discussion in a new '' @
                 ''direction. Don'' @
                 [CHR 0x27] @
                 ''t feel obligated to ask a question:''
           in ([prompt],
               (case call prompt of
                  Rejected e \<Rightarrow> Inl e
                | Resolved t \<Rightarrow>
                    if trim t = [] then Inl ''Empty response from Gemini'' else Inr t)))"
proof -
  have "generateGeminiResponse call msgs =
     (let valid = validMessages msgs
      in if valid = [] then ([], Inl ''No valid messages to process'')
         else
           let prompt = geminiHeader (initialPromptOf valid) @
                        concat (map (\<lambda>m. speaker m @ '': '' @ content m @ blankLine) valid) @
                        geminiTrailer
           in ([prompt],
               (case call prompt of
                  Rejected e \<Rightarrow> Inl e
                | Resolved t \<Rightarrow>
                    if trim t = [] then Inl ''Empty response from Gemini'' else Inr t)))"
    by (auto simp: generateGeminiResponse_def Let_def conversationContext_eq trim_Nil
        split: settled.splits)
  then show ?thesis
    unfolding Let_def initialPromptOf_valid
    unfolding validMessages_eq
    by (simp add: geminiHeader_def geminiTrailer_def speaker_def blankLine_def)
qed

text \<open>A history of a question of the user, an answer of a model and a message of white
  space; a history with no message of the user; and one with no message to keep.\<close>

theorem C8_gemini_flattening_witness:
  "generateGeminiResponse (\<lambda>prompt. Resolved ''Purr.'')
     [\<lparr>role = ''user'', content = ''Cats?'', provider = ''user''\<rparr>,
      \<lparr>role = ''ai'', content = ''They purr.'', provider = ''gpt-4''\<rparr>,
      \<lparr>role = ''ai'', content = '' '', provider = ''claude-3-opus''\<rparr>] =
     ([''You are having a natural conversation with other AIs about: '' @
       [CHR 0x22] @
       ''Cats?'' @
       [CHR 0x22, CHR 0x0A, CHR 0x0A] @
       ''Respond naturally by: building on previous points, sharing your own '' @
       ''perspective, agreeing or respectfully disagreeing, making '' @
       ''observations, or offering new angles. Mix up your response style - '' @
       ''sometimes make statements, sometimes share insights, sometimes pose '' @
       ''questions, but don'' @
       [CHR 0x27] @
       ''t end every response with a question. Keep the conversation flowing '' @
       ''naturally like friends discussing a topic. Be authentic and avoid '' @
       ''assistant-like phrases.'' @
       [CHR 0x0A, CHR 0x0A] @
       ''Conversation so far:'' @
       [CHR 0x0A, CHR 0x0A] @
       ''Human: Cats?'' @
       [CHR 0x0A, CHR 0x0A] @
       ''AI (gpt-4): They purr.'' @
       [CHR 0x0A, CHR 0x0A] @
       ''Now respond naturally - maybe build on what was said, share your '' @
       ''perspective, make an observation, or take the discussion in a new '' @
       ''direction. Don'' @
       [CHR 0x27] @
       ''t feel obligated to ask a question:''],
      Inr ''Purr.'') \<and>
   generateGeminiResponse (\<lambda>prompt. Resolved ''Purr.'')
     [\<lparr>role = ''ai'', content = ''Hello.'', provider = ''gpt-4''\<rparr>] =
     ([''You are having a natural conversation with other AIs about: '' @
       [CHR 0x22] @
       ''General discussion'' @
       [CHR 0x22, CHR 0x0A, CHR 0x0A] @
       ''Respond naturally by: building on previous points, sharing your own '' @
       ''perspective, agreeing or respectfully disagreeing, making '' @
       ''observations, or offering new angles. Mix up your response style - '' @
       ''sometimes make statements, sometimes share insights, sometimes pose '' @
       ''questions, but don'' @
       [CHR 0x27] @
       ''t end every response with a question. Keep the conversation flowing '' @
       ''naturally like friends discussing a topic. Be authentic and avoid '' @
       ''assistant-like phrases.'' @
       [CHR 0x0A, CHR 0x0A] @
       ''Conversation so far:'' @
       [CHR 0x0A, CHR 0x0A] @
       ''AI (gpt-4): Hello.'' @
       [CHR 0x0A, CHR 0x0A] @
       ''Now respond naturally - maybe build on what was said, share your '' @
       ''perspective, make an observation, or take the discussion in a new '' @
       ''direction. Don'' @
       [CHR 0x27] @
       ''t feel obligated to ask a question:''],
      Inr ''Purr.'') \<and>
   generateGeminiResponse (\<lambda>prompt. Resolved ''Purr.'')
     [\<lparr>role = ''user'', content = '' '', provider = ''user''\<rparr>] =
     ([], Inl ''No valid messages to process'')"
  unfolding C8_gemini_flattening by code_simp

text \<open>
  Claim C9. The response \<^verbatim>\<open>{choices: [{message: {content: null}}], content: 'hello'}\<close>
  has a text in one of the shapes the adapter knows (\<^verbatim>\<open>response.content\<close>), and the
  adapter fails on it with the unexpected-format error: once \<^verbatim>\<open>choices[0]\<close> is there,
  the shapes after it in the chain are not tried.
\<close>

theorem C9_choices_hide_later_shapes:
  "extractResponseText
     (JObj [(''choices'', JArr [JObj [(''message'', JObj [(''content'', JNull)])]]),
            (''content'', JStr ''hello'')]) = Inl unexpectedResponseFormat \<and>
   shapeContent
     (JObj [(''choices'', JArr [JObj [(''message'', JObj [(''content'', JNull)])]]),
            (''content'', JStr ''hello'')]) = Some (JStr ''hello'') \<and>
   shapeContent \<in> set knownShapes"
  by (simp add: extractResponseText_def shapeOutputText_def shapeTextContent_def
      shapeOutputArray_def hasChoice_def shapeChoiceText_def shapeChoiceMessage_def
      shapeContent_def noShape_def knownShapes_def)

lemma find_filter_keeps:
  "(\<And>x. P x \<Longrightarrow> Q x) \<Longrightarrow> find P (filter Q xs) = find P xs"
  by (induction xs) auto

lemma initialPromptOf_filter_user:
  "initialPromptOf (filter (\<lambda>m. provider m = ''user'' \<or> Q m) msgs) = initialPromptOf msgs"
  by (simp add: initialPromptOf_def find_filter_keeps)

lemma processMessages_alt:
  "processMessages msgs =
     (case filteredMessages msgs of
        [] \<Rightarrow> []
      | first # rest \<Rightarrow>
          foldl mergeStep [\<lparr>role = claudeRole (role first), content = content first\<rparr>] rest)"
  by (cases msgs) (simp_all add: processMessages_def filteredMessages_def)

lemma filteredMessages_filter:
  "filteredMessages (filter (\<lambda>m. Q m \<or> \<not> includesStr (content m) placeholderText) msgs) =
     filteredMessages msgs"
  unfolding filteredMessages_def filter_filter
  by (rule filter_cong) auto

text \<open>
  Claim C10. The filter of the Claude adapter drops every message whose content
  contains the placeholder text anywhere: none of the messages kept contains it, and
  the request (messages and system text) is the same as for the history without the
  model responses that contain it. So a response of a model that quotes the
  placeholder inside other text is left out of the request, as in the example.
\<close>

theorem C10_placeholder_substring_filter:
  "(\<nexists>m. m \<in> set (filteredMessages msgs) \<and> includesStr (content m) placeholderText) \<and>
   formattedMessages msgs =
     formattedMessages
       (filter (\<lambda>m. provider m = ''user'' \<or> \<not> includesStr (content m) placeholderText) msgs) \<and>
   systemMessage msgs =
     systemMessage
       (filter (\<lambda>m. provider m = ''user'' \<or> \<not> includesStr (content m) placeholderText) msgs) \<and>
   ''I saw (Previous turn provided no text output) in the log'' \<noteq> placeholderText \<and>
   formattedMessages
     [\<lparr>role = ''user'', content = ''Hi'', provider = ''user''\<rparr>,
      \<lparr>role = ''ai'', content = ''I saw (Previous turn provided no text output) in the log'',
       provider = ''gpt-4''\<rparr>] =
     [\<lparr>role = ''user'', content = ''Hi''\<rparr>]"
proof -
  let ?keep = "\<lambda>m. provider m = ''user'' \<or> \<not> includesStr (content m) placeholderText"
  have 1: "\<nexists>m. m \<in> set (filteredMessages msgs) \<and> includesStr (content m) placeholderText"
    by (simp add: filteredMessages_def)
  have "processMessages (filter ?keep msgs) = processMessages msgs"
    unfolding processMessages_alt filteredMessages_filter ..
  then have 2: "formattedMessages msgs = formattedMessages (filter ?keep msgs)"
    by (simp add: formattedMessages_def initialPromptOf_filter_user)
  have 3: "systemMessage msgs = systemMessage (filter ?keep msgs)"
    by (simp add: systemMessage_def initialPromptOf_filter_user)
  have 4: "''I saw (Previous turn provided no text output) in the log'' \<noteq> placeholderText"
    by (simp add: placeholderText_def)
  have 5: "formattedMessages
     [\<lparr>role = ''user'', content = ''Hi'', provider = ''user''\<rparr>,
      \<lparr>role = ''ai'', content = ''I saw (Previous turn provided no text output) in the log'',
       provider = ''gpt-4''\<rparr>] =
     [\<lparr>role = ''user'', content = ''Hi''\<rparr>]"
    by (simp add: formattedMessages_def addContinuation_def addDefaultUser_def processMessages_def
        filteredMessages_def claudeRole_def placeholderText_def initialPromptOf_def)
  from 1 2 3 4 5 show ?thesis by blast
qed

theorem C10_placeholder_substring_filter_witness:
  "formattedMessages
     [\<lparr>role = ''user'', content = ''Hi'', provider = ''user''\<rparr>,
      \<lparr>role = ''ai'', content = ''I saw (Previous turn provided no text output) in the log'',
       provider = ''gpt-4''\<rparr>] =
   formattedMessages [\<lparr>role = ''user'', content = ''Hi'', provider = ''user''\<rparr>]"
proof -
  have "includesStr ''I saw (Previous turn provided no text output) in the log'' placeholderText"
    by (simp add: placeholderText_def)
  then show ?thesis
    using C10_placeholder_substring_filter
      [of "[\<lparr>role = ''user'', content = ''Hi'', provider = ''user''\<rparr>,
            \<lparr>role = ''ai'', content = ''I saw (Previous turn provided no text output) in the log'',
             provider = ''gpt-4''\<rparr>]"]
    by simp
qed

section \<open>Properties of the conversation chain\<close>

lemma findModel_scan:
  "findModel ks c attempts =
     find (hasApiKey ks (userId c))
       (map (\<lambda>k. participants c ! ((currentTurn c + k) mod length (participants c)))
          [attempts..<length (participants c)])"
proof (induction ks c attempts rule: findModel.induct)
  case (1 ks c attempts)
  show ?case
  proof (cases "attempts < length (participants c)")
    case True
    then have upt: "[attempts..<length (participants c)] =
        attempts # [attempts + 1..<length (participants c)]"
      by (simp add: upt_conv_Cons)
    have "findModel ks c attempts =
       (if hasApiKey ks (userId c)
            (participants c ! ((currentTurn c + attempts) mod length (participants c)))
        then Some (participants c ! ((currentTurn c + attempts) mod length (participants c)))
        else findModel ks c (attempts + 1))"
      using True by (subst findModel.simps) (simp add: Let_def)
    also have "\<dots> = find (hasApiKey ks (userId c))
       (map (\<lambda>k. participants c ! ((currentTurn c + k) mod length (participants c)))
          (attempts # [attempts + 1..<length (participants c)]))"
      using "1.IH" [OF True refl refl] by simp
    finally show ?thesis
      unfolding upt [symmetric] .
  next
    case False
    then show ?thesis
      by (subst findModel.simps) simp
  qed
qed

lemma rotate_as_map:
  "map (\<lambda>k. xs ! ((t + k) mod length xs)) [0..<length xs] = rotate t xs"
proof (rule nth_equalityI)
  show "length (map (\<lambda>k. xs ! ((t + k) mod length xs)) [0..<length xs]) = length (rotate t xs)"
    by simp
next
  fix i
  assume "i < length (map (\<lambda>k. xs ! ((t + k) mod length xs)) [0..<length xs])"
  then have i: "i < length xs" by simp
  then show "map (\<lambda>k. xs ! ((t + k) mod length xs)) [0..<length xs] ! i = rotate t xs ! i"
    by (simp add: nth_rotate)
qed

lemma findModel_rotate:
  "findModel ks c 0 = find (hasApiKey ks (userId c)) (rotate (currentTurn c) (participants c))"
  unfolding findModel_scan rotate_as_map ..

lemma find_None_set: "find P xs = None \<longleftrightarrow> (\<forall>x \<in> set xs. \<not> P x)"
  by (induction xs) auto

lemma find_Some_set: "find P xs = Some x \<Longrightarrow> x \<in> set xs \<and> P x"
  by (induction xs) (auto split: if_splits)



lemma findModel_None:
  "findModel ks c 0 = None \<longleftrightarrow> (\<forall>x \<in> set (participants c). \<not> hasApiKey ks (userId c) x)"
  unfolding findModel_rotate find_None_set by simp

lemma turnsAttempted_emit:
  "turnsAttempted (emit e s) = turnsAttempted s + (case e of AiThinking m \<Rightarrow> 1 | _ \<Rightarrow> 0)"
  by (simp add: turnsAttempted_def emit_def split: event.splits)

lemma beginTurn_inactive: "\<not> isActive (conv s) \<Longrightarrow> beginTurn ks s = NoTurn s"
  by (simp add: beginTurn_def)

lemma continue_inactive: "\<not> isActive (conv s) \<Longrightarrow> continueConversationChain ks g s = s"
  by (simp add: continueConversationChain_def beginTurn_inactive)

lemma fireTimer_inactive:
  "\<not> isActive (conv s) \<Longrightarrow> fireTimer ks g s = s\<lparr>timer := None\<rparr>"
  by (simp add: fireTimer_def split: option.splits timer.splits)

lemma happen_inactive:
  assumes "\<not> isActive (conv s)"
  shows "\<not> isActive (conv (happen ks s h)) \<and>
         turnsAttempted (happen ks s h) = turnsAttempted s \<and>
         messages (conv (happen ks s h)) = messages (conv s) \<and>
         currentTurn (conv (happen ks s h)) = currentTurn (conv s) \<and>
         emptyResponseCount (conv (happen ks s h)) = emptyResponseCount (conv s)"
proof (cases h)
  case (TimerFires g)
  with assms show ?thesis
    by (simp add: fireTimer_inactive turnsAttempted_def)
next
  case StopRequested
  with assms show ?thesis
    by (simp add: stopConversation_def turnsAttempted_def emit_def setActive_def)
qed

lemma afterwards_inactive:
  "\<not> isActive (conv s) \<Longrightarrow>
     \<not> isActive (conv (afterwards ks hs s)) \<and>
     turnsAttempted (afterwards ks hs s) = turnsAttempted s \<and>
     messages (conv (afterwards ks hs s)) = messages (conv s) \<and>
     currentTurn (conv (afterwards ks hs s)) = currentTurn (conv s) \<and>
     emptyResponseCount (conv (afterwards ks hs s)) = emptyResponseCount (conv s)"
proof (induction hs arbitrary: s)
  case Nil
  then show ?case by (simp add: afterwards_def)
next
  case (Cons h hs)
  from happen_inactive [OF Cons.prems, of ks h]
  have step: "\<not> isActive (conv (happen ks s h))"
    and same: "turnsAttempted (happen ks s h) = turnsAttempted s"
      "messages (conv (happen ks s h)) = messages (conv s)"
      "currentTurn (conv (happen ks s h)) = currentTurn (conv s)"
      "emptyResponseCount (conv (happen ks s h)) = emptyResponseCount (conv s)"
    by simp_all
  from Cons.IH [OF step] same show ?case
    by (simp add: afterwards_def)
qed

text \<open>What the step after the await does, case by case.\<close>

lemma finishTurn_blank:
  assumes "blankText t"
  shows "finishTurn m (Returned t) s =
     (if emptyResponseCount (conv s) + 1 \<ge> 5
      then emit (ConversationEnded ''Too many empty responses'')
             (setActive False (addPlaceholder m s))
      else nextTurn RecheckActive (addPlaceholder m s))"
  using assms by (cases t) (simp_all add: finishTurn_def blankText_def Let_def addPlaceholder_def)

lemma finishTurn_anthropicEmpty:
  "finishTurn m (Threw anthropicEmpty) s =
     (if emptyResponseCount (conv s) + 1 \<ge> 5
      then emit (ConversationEnded ''Too many empty/failed responses'')
             (setActive False (addPlaceholder m s))
      else nextTurn RecheckActive (addPlaceholder m s))"
  by (simp add: finishTurn_def Let_def addPlaceholder_def)

lemma finishTurn_text:
  assumes "\<not> blankText t"
  shows "finishTurn m (Returned t) s =
     nextTurn RecheckActiveAndLimit
       (emit (NewMessage (newMessage m (the t)))
          (s\<lparr>conv := addMessage m (the t) ((conv s)\<lparr>emptyResponseCount := 0\<rparr>)\<rparr>))"
  using assms by (cases t) (simp_all add: finishTurn_def blankText_def Let_def addMessage_def)

lemma finishTurn_failure:
  assumes "e \<noteq> anthropicEmpty"
  shows "finishTurn m (Threw e) s =
     nextTurn RecheckActive (emit (ErrorEvent (''Error with '' @ m @ '': '' @ e) (Some m)) s)"
  using assms by (simp add: finishTurn_def)

lemma finishTurn_cases:
  obtains (blank) t where "result = Returned t" "blankText t"
  | (answer) t where "result = Returned t" "\<not> blankText t"
  | (empty) "result = Threw anthropicEmpty"
  | (failure) e where "result = Threw e" "e \<noteq> anthropicEmpty"
  by (cases result) auto

lemma addMessage_fields:
  "emptyResponseCount (addMessage m t c) = emptyResponseCount c"
  "currentTurn (addMessage m t c) = currentTurn c"
  "isActive (addMessage m t c) = isActive c"
  "participants (addMessage m t c) = participants c"
  "userId (addMessage m t c) = userId c"
  "messages (addMessage m t c) = messages c @ [newMessage m t]"
  by (simp_all add: addMessage_def Let_def)

lemma addPlaceholder_fields:
  "emptyResponseCount (conv (addPlaceholder m s)) = emptyResponseCount (conv s) + 1"
  "currentTurn (conv (addPlaceholder m s)) = currentTurn (conv s)"
  "isActive (conv (addPlaceholder m s)) = isActive (conv s)"
  "messages (conv (addPlaceholder m s)) = messages (conv s) @ [newMessage m placeholderText]"
  "emitted (addPlaceholder m s) = emitted s"
  "timer (addPlaceholder m s) = timer s"
  by (simp_all add: addPlaceholder_def addMessage_fields)

lemma finishTurn_count:
  "emptyResponseCount (conv (finishTurn m result s)) =
     (case result of
        Returned t \<Rightarrow> if blankText t then emptyResponseCount (conv s) + 1 else 0
      | Threw e \<Rightarrow> if e = anthropicEmpty then emptyResponseCount (conv s) + 1
                  else emptyResponseCount (conv s))"
proof (cases result rule: finishTurn_cases)
  case (blank t)
  then show ?thesis
    by (simp add: finishTurn_blank addPlaceholder_fields emit_def setActive_def nextTurn_def)
next
  case (answer t)
  then show ?thesis
    by (simp add: finishTurn_text addMessage_fields emit_def nextTurn_def)
next
  case empty
  then show ?thesis
    by (simp add: finishTurn_anthropicEmpty addPlaceholder_fields emit_def setActive_def
        nextTurn_def)
next
  case (failure e)
  then show ?thesis
    by (simp add: finishTurn_failure emit_def nextTurn_def)
qed

lemma finishTurn_ceiling:
  assumes "emptyResponseCount (conv s) < 5"
    and "5 \<le> emptyResponseCount (conv (finishTurn m result s))"
  shows "finishTurn m result s =
     emit (ConversationEnded (case result of Returned t \<Rightarrow> ''Too many empty responses''
                                | Threw e \<Rightarrow> ''Too many empty/failed responses''))
       (setActive False (addPlaceholder m s)) \<and> emptyResponseCount (conv s) = 4"
proof -
  from assms(2) have ge: "5 \<le>
     (case result of
        Returned t \<Rightarrow> if blankText t then emptyResponseCount (conv s) + 1 else 0
      | Threw e \<Rightarrow> if e = anthropicEmpty then emptyResponseCount (conv s) + 1
                  else emptyResponseCount (conv s))"
    unfolding finishTurn_count .
  show ?thesis
  proof (cases result rule: finishTurn_cases)
    case (blank t)
    with ge assms(1) have "emptyResponseCount (conv s) = 4" by simp
    with blank show ?thesis
      by (simp add: finishTurn_blank)
  next
    case (answer t)
    with ge show ?thesis by simp
  next
    case empty
    with ge assms(1) have "emptyResponseCount (conv s) = 4" by simp
    with empty show ?thesis
      by (simp add: finishTurn_anthropicEmpty)
  next
    case (failure e)
    with ge assms(1) show ?thesis by simp
  qed
qed


lemma finishTurn_timer:
  "timer (finishTurn m result s) =
     (if emptyResponseCount (conv s) < emptyResponseCount (conv (finishTurn m result s)) \<and>
         5 \<le> emptyResponseCount (conv (finishTurn m result s))
      then timer s
      else Some (case result of
                   Returned t \<Rightarrow> if blankText t then RecheckActive else RecheckActiveAndLimit
                 | Threw e \<Rightarrow> RecheckActive))"
proof (cases result rule: finishTurn_cases)
  case (blank t)
  then show ?thesis
    by (simp add: finishTurn_blank addPlaceholder_fields emit_def setActive_def nextTurn_def)
next
  case (answer t)
  then show ?thesis
    by (simp add: finishTurn_text addMessage_fields emit_def nextTurn_def)
next
  case empty
  then show ?thesis
    by (simp add: finishTurn_anthropicEmpty addPlaceholder_fields emit_def setActive_def
        nextTurn_def)
next
  case (failure e)
  then show ?thesis
    by (simp add: finishTurn_failure emit_def nextTurn_def)
qed


lemma continue_exhausted:
  assumes "isActive (conv s)" "findModel ks (conv s) 0 = None"
  shows "continueConversationChain ks g s =
     s\<lparr>conv := (conv s)\<lparr>isActive := False\<rparr>,
       emitted := emitted s @ [ConversationEnded ''No models with API keys available'']\<rparr>"
  using assms
  by (simp add: continueConversationChain_def beginTurn_def emit_def setActive_def)

lemma continue_selected:
  assumes "isActive (conv s)" "findModel ks (conv s) 0 = Some m"
  shows "continueConversationChain ks g s =
     finishTurn m (g m (getConversationHistory (conv s) 20))
       (s\<lparr>emitted := emitted s @ [AiThinking m]\<rparr>)"
  using assms
  by (simp add: continueConversationChain_def beginTurn_def emit_def)

text \<open>
  Claim C3 as amended. When a turn takes the counter of empty or failed responses
  to 5, the conversation is set inactive, no callback is scheduled, and exactly one
  stop notification is emitted in that turn. Its reason is
  \<^verbatim>\<open>'Too many empty/failed responses'\<close> when the turn failed with the empty-content
  error of the Claude adapter, and \<^verbatim>\<open>'Too many empty responses'\<close> when the provider
  returned a blank text. Whatever happens afterwards (callbacks, stop requests), no
  further turn is attempted and the transcript stays as it is.
\<close>

theorem C3_empty_response_ceiling:
  assumes "emptyResponseCount (conv s) < 5"
    and "5 \<le> emptyResponseCount (conv (finishTurn m result s))"
  shows "emptyResponseCount (conv (finishTurn m result s)) = 5 \<and>
         \<not> isActive (conv (finishTurn m result s)) \<and>
         timer (finishTurn m result s) = timer s \<and>
         emitted (finishTurn m result s) =
           emitted s @
           [ConversationEnded (case result of
                                 Returned t \<Rightarrow> ''Too many empty responses''
                               | Threw e \<Rightarrow> ''Too many empty/failed responses'')] \<and>
         (\<forall>hs. turnsAttempted (afterwards ks hs (finishTurn m result s)) =
                 turnsAttempted (finishTurn m result s) \<and>
               messages (conv (afterwards ks hs (finishTurn m result s))) =
                 messages (conv (finishTurn m result s)))"
proof -
  from finishTurn_ceiling [OF assms]
  have step: "finishTurn m result s =
      emit (ConversationEnded (case result of Returned t \<Rightarrow> ''Too many empty responses''
                                 | Threw e \<Rightarrow> ''Too many empty/failed responses''))
        (setActive False (addPlaceholder m s))"
    and four: "emptyResponseCount (conv s) = 4"
    by simp_all
  have inactive: "\<not> isActive (conv (finishTurn m result s))"
    unfolding step by (simp add: emit_def setActive_def)
  have "emptyResponseCount (conv (finishTurn m result s)) = 5"
    unfolding step using four by (simp add: emit_def setActive_def addPlaceholder_fields)
  moreover have "timer (finishTurn m result s) = timer s"
    unfolding step by (simp add: emit_def setActive_def addPlaceholder_fields)
  moreover have "emitted (finishTurn m result s) =
      emitted s @ [ConversationEnded (case result of
                                 Returned t \<Rightarrow> ''Too many empty responses''
                               | Threw e \<Rightarrow> ''Too many empty/failed responses'')]"
    unfolding step by (simp add: emit_def setActive_def addPlaceholder_fields)
  moreover note inactive afterwards_inactive [OF inactive, of ks]
  ultimately show ?thesis by blast
qed

theorem C3_empty_response_ceiling_witness:
  "emitted (finishTurn ''claude-3-opus'' (Threw anthropicEmpty)
      \<lparr>conv = (createConversation ''s1'' [''claude-3-opus''])
                \<lparr>isActive := True, emptyResponseCount := 4\<rparr>,
       emitted = [], timer = None\<rparr>) =
     [ConversationEnded ''Too many empty/failed responses''] \<and>
   \<not> isActive (conv (finishTurn ''claude-3-opus'' (Threw anthropicEmpty)
      \<lparr>conv = (createConversation ''s1'' [''claude-3-opus''])
                \<lparr>isActive := True, emptyResponseCount := 4\<rparr>,
       emitted = [], timer = None\<rparr>))"
proof -
  let ?s = "\<lparr>conv = (createConversation ''s1'' [''claude-3-opus''])
                \<lparr>isActive := True, emptyResponseCount := 4\<rparr>,
       emitted = [], timer = None\<rparr>"
  have 1: "emptyResponseCount (conv ?s) < 5"
    by simp
  have 2: "5 \<le> emptyResponseCount (conv (finishTurn ''claude-3-opus'' (Threw anthropicEmpty) ?s))"
    by (simp add: finishTurn_count)
  from C3_empty_response_ceiling [OF 1 2] show ?thesis
    by simp
qed

text \<open>
  The claim as written names one reason for every case. Five blank answers in a row,
  from the start of a conversation, end it with the reason
  \<^verbatim>\<open>'Too many empty responses'\<close>, which is not the reason of the claim in any
  letter case.
\<close>

theorem C3_reason_counterexample:
  "(case startConversation exampleKeys alwaysBlank ''s1'' [''gpt-4''] ''Hi'' of
      Inl refusal \<Rightarrow> False
    | Inr s1 \<Rightarrow>
        emptyResponseCount
          (conv (afterwards exampleKeys (replicate 4 (TimerFires alwaysBlank)) s1)) = 5 \<and>
        stopNotifications
          (emitted (afterwards exampleKeys (replicate 4 (TimerFires alwaysBlank)) s1)) =
          [''Too many empty responses'']) \<and>
   toLowerCase (utf16 ''Too many empty responses'') \<noteq>
     Some (utf16 ''too many empty/failed responses'')"
  by code_simp







lemma fireTimer_limit:
  assumes "timer s = Some RecheckActiveAndLimit" "isActive (conv s)"
    "30 \<le> length (messages (conv s))"
  shows "fireTimer ks g s =
     s\<lparr>conv := (conv s)\<lparr>isActive := False\<rparr>,
       emitted := emitted s @ [ConversationEnded ''Message limit reached''],
       timer := None\<rparr>"
  using assms by (simp add: fireTimer_def emit_def setActive_def)

lemma fireTimer_no_limit:
  assumes "timer s = Some RecheckActive" "isActive (conv s)"
  shows "fireTimer ks g s = continueConversationChain ks g (s\<lparr>timer := None\<rparr>)"
  using assms by (simp add: fireTimer_def)

text \<open>
  Claim C4. A conversation with one participant, started with \<^verbatim>\<open>'Hi'\<close>: the provider
  answers with text 28 times and then with white space. The transcript now has 30
  messages, the last one a placeholder; the conversation is still active, no stop
  notification has been emitted, and the callback that is pending does not look at
  the length of the transcript. When it runs, a further turn is taken and the
  transcript grows to 31 messages.
\<close>

theorem C4_placeholder_passes_ceiling:
  "(case startConversation exampleKeys alwaysText ''s1'' [''gpt-4''] ''Hi'' of
      Inl refusal \<Rightarrow> False
    | Inr s2 \<Rightarrow>
        (let s30 = afterwards exampleKeys
                     (replicate 27 (TimerFires alwaysText) @ [TimerFires alwaysBlank]) s2;
             s31 = happen exampleKeys s30 (TimerFires alwaysText)
         in length (messages (conv s2)) = 2 \<and>
            length (messages (conv s30)) = 30 \<and>
            content (last (messages (conv s30))) = placeholderText \<and>
            isActive (conv s30) \<and>
            stopNotifications (emitted s30) = [] \<and>
            timer s30 = Some RecheckActive \<and>
            turnsAttempted s31 = turnsAttempted s30 + 1 \<and>
            length (messages (conv s31)) = 31 \<and>
            stopNotifications (emitted s31) = []))"
  by code_simp

lemma hasApiKey_user: "\<not> hasApiKey ks u ''user''"
  by (simp add: hasApiKey_def lookupProperty_def chainModelMapping_def inheritedProperties_def)

lemma findModel_hasApiKey:
  "findModel ks c 0 = Some m \<Longrightarrow> hasApiKey ks (userId c) m"
  unfolding findModel_rotate by (drule find_Some_set) simp

lemma addMessage_initialGoal:
  "m \<noteq> ''user'' \<Longrightarrow> initialGoal (addMessage m t c) = initialGoal c"
  by (simp add: addMessage_def)

lemma addMessage_keeps_goal:
  "initialGoal c = Some goal \<Longrightarrow> goal \<noteq> [] \<Longrightarrow> initialGoal (addMessage m t c) = Some goal"
  by (simp add: addMessage_def)

lemma finishTurn_initialGoal:
  assumes "m \<noteq> ''user''"
  shows "initialGoal (conv (finishTurn m result s)) = initialGoal (conv s)"
proof (cases result rule: finishTurn_cases)
  case (blank t)
  then show ?thesis
    using assms
    by (simp add: finishTurn_blank addPlaceholder_def addMessage_initialGoal emit_def
        setActive_def nextTurn_def)
next
  case (answer t)
  then show ?thesis
    using assms
    by (simp add: finishTurn_text addMessage_initialGoal emit_def nextTurn_def)
next
  case empty
  then show ?thesis
    using assms
    by (simp add: finishTurn_anthropicEmpty addPlaceholder_def addMessage_initialGoal emit_def
        setActive_def nextTurn_def)
next
  case (failure e)
  then show ?thesis
    by (simp add: finishTurn_failure emit_def nextTurn_def)
qed

lemma continue_initialGoal:
  "initialGoal (conv (continueConversationChain ks g s)) = initialGoal (conv s)"
proof (cases "isActive (conv s)")
  case False
  then show ?thesis by (simp add: continue_inactive)
next
  case True
  show ?thesis
  proof (cases "findModel ks (conv s) 0")
    case None
    with True show ?thesis by (simp add: continue_exhausted)
  next
    case (Some m)
    from findModel_hasApiKey [OF Some] have "m \<noteq> ''user''"
      using hasApiKey_user by blast
    then show ?thesis
      unfolding continue_selected [OF True Some]
      by (simp add: finishTurn_initialGoal)
  qed
qed

lemma happen_initialGoal:
  "initialGoal (conv (happen ks s h)) = initialGoal (conv s)"
proof (cases h)
  case (TimerFires g)
  then show ?thesis
    by (simp add: fireTimer_def continue_initialGoal emit_def setActive_def
        split: option.splits timer.splits)
next
  case StopRequested
  then show ?thesis
    by (simp add: stopConversation_def emit_def setActive_def)
qed

lemma afterwards_initialGoal:
  "initialGoal (conv (afterwards ks hs s)) = initialGoal (conv s)"
  unfolding afterwards_def
  by (induction hs arbitrary: s) (simp_all add: happen_initialGoal)

lemma initialGoal_never_set:
  assumes "startConversation ks g sessionId models prompt = Inr s"
  shows "initialGoal (conv (afterwards ks hs s)) = None"
proof -
  from assms have "s = startConversationChain ks g prompt
      \<lparr>conv = (createConversation sessionId models)\<lparr>isActive := True\<rparr>,
       emitted = [ConversationStarted], timer = None\<rparr>"
    by (simp add: startConversation_def split: if_splits)
  then show ?thesis
    by (simp add: afterwards_initialGoal startConversationChain_def
        continue_initialGoal Let_def emit_def createConversation_def)
qed

text \<open>
  Claim C6. A conversation started with the prompt \<^verbatim>\<open>'Discuss cats'\<close>: after the first
  turn the transcript begins with the message of the user, and \<^verbatim>\<open>initialGoal\<close> is
  still \<^verbatim>\<open>null\<close>. \<^verbatim>\<open>startConversationChain\<close> pushes the first message of the user
  onto the transcript itself, so \<^verbatim>\<open>addMessage\<close>, the only place that sets the goal,
  never sees it.
\<close>

theorem C6_goal_not_set_at_start:
  "(case startConversation exampleKeys alwaysText ''s1'' [''gpt-4''] ''Discuss cats'' of
      Inl refusal \<Rightarrow> False
    | Inr s \<Rightarrow>
        map provider (messages (conv s)) = [''user'', ''gpt-4''] \<and>
        map content (messages (conv s)) = [''Discuss cats'', ''I see.''] \<and>
        initialGoal (conv s) = None)"
  by code_simp

section \<open>Properties of the needle test\<close>















end
